theory Spec2Isabelle
  imports Complex_Main "HOL-Library.AList" "HOL-Library.Char_ord" "HOL-Library.List_Lexorder"
begin

section \<open>Data model of the ingestion script\<close>

text \<open>
  The records follow the interfaces of the ingestion script. A JavaScript object used as a
  dictionary (\<open>Record<string, T>\<close>) is an association list with pairwise different keys,
  in insertion order, which is the order \<open>Object.entries\<close>, \<open>Object.keys\<close> and
  \<open>Object.values\<close> enumerate string keys in; \<open>AList.update\<close> is the assignment
  \<open>obj[k] = v\<close> (an existing key keeps its place, a new key goes last). Keys that look like
  array indices (which JavaScript enumerates first) are not told apart. The co-occurrence
  analysis reads and writes its dictionaries by names taken from example code, and there
  the properties that a plain object inherits from \<open>Object.prototype\<close> are modelled
  (\<open>objectPrototypeNames\<close>, \<open>increment\<close>, \<open>assign\<close>); the other dictionaries are keyed by
  names of declarations, taken not to be among those properties. A JavaScript number that
  holds a count is a \<open>nat\<close>; a stored frequency is a \<open>number\<close>, the quotient of two
  counts as a \<open>rat\<close> or \<open>NaN\<close>. The comparisons of the script (\<open>> 0.5\<close>, \<open>< 1.0\<close>,
  \<open>> 0.1\<close>) are exact on quotients of counts far below \<open>2^52\<close>, so double rounding is
  left out. Field names shared by several interfaces carry a suffix in all but
  \<open>ComponentDefinition\<close>.
\<close>

datatype number = Number rat | NaN

record ComponentField =
  name_f :: string
  type_f :: string
  default_f :: "string option"
  description_f :: "string option"

record ComponentDefinition =
  name :: string
  package :: string
  filePath :: string
  description :: string
  remarks :: "string option"
  category :: "string option"
  jsdocExamples :: "string list"
  fields_c :: "ComponentField list"
  sourceCode :: string
  usageExamples :: "string list"
  requires :: "string list"
  optionalWith :: "string list"
  usedBySystems :: "string list"
  coOccurrences :: "(string \<times> number) list"
  importPath :: string
  keywords_c :: "string list"

record MethodSummary =
  name_m :: string
  signature_m :: string
  description_m :: string
  returnType_m :: "string option"

record PropertySummary =
  name_p :: string
  type_p :: string
  description_p :: string

record SystemDefinition =
  name_s :: string
  package_s :: string
  filePath_s :: string
  description_s :: string
  remarks_s :: "string option"
  category_s :: "string option"
  methods :: "MethodSummary list"
  properties :: "PropertySummary list"
  sourceCode_s :: string
  queriesComponents :: "string list"
  importPath_s :: string
  keywords_s :: "string list"

record ExampleCode =
  title :: string
  filePath_e :: string
  description_e :: string
  code :: string
  category_e :: string
  tags :: "string list"
  componentsUsed :: "string list"
  systemsUsed :: "string list"
  initPattern :: "string option"

record Relationship =
  from_r :: string
  to_r :: string
  type_r :: string

record ComponentPattern =
  name_c :: string
  components_c :: "string list"
  frequency :: rat
  category_c :: string

record OrderingConstraint =
  before :: string
  after :: string
  reason :: string

datatype Severity = error | warning

record ValidationRule =
  id_v :: string
  description_v :: string
  check_v :: string
  message_v :: string
  severity :: Severity

type_synonym Components = "(string \<times> ComponentDefinition) list"

type_synonym Systems = "(string \<times> SystemDefinition) list"

section \<open>String and array helpers of JavaScript\<close>

text \<open>\<open>Array.prototype.join\<close>.\<close>

fun join :: "string \<Rightarrow> string list \<Rightarrow> string" where
  "join sep [] = []"
| "join sep [x] = x"
| "join sep (x # y # ys) = x @ sep @ join sep (y # ys)"

text \<open>\<open>[...new Set(xs)]\<close>: the first occurrence of every element, in order.\<close>

definition push_new :: "'a \<Rightarrow> 'a list \<Rightarrow> 'a list" where
  "push_new x acc = (if x \<in> set acc then acc else acc @ [x])"

definition dedupe :: "'a list \<Rightarrow> 'a list" where
  "dedupe xs = fold push_new xs []"

section \<open>Ordering constraints and validation rules\<close>

text \<open>
  \<open>generateOrderingConstraints\<close>: the two nested loops over \<open>Object.entries(components)\<close>
  and \<open>component.requires\<close>, each pushing one constraint.
\<close>

definition generateOrderingConstraints :: "Components \<Rightarrow> OrderingConstraint list" where
  "generateOrderingConstraints components =
     concat (map (\<lambda>(name, component).
       map (\<lambda>required.
         \<lparr>before = name, after = required,
          reason = name @ '' requires '' @ required @ '' to be added first''\<rparr>)
         (requires component)) components)"

text \<open>
  \<open>generateValidationRules\<close>: per component at most one rule for its requirements and one
  for its systems, then per system at most one rule, then the fixed rule.
\<close>

definition componentRules :: "string \<Rightarrow> ComponentDefinition \<Rightarrow> ValidationRule list" where
  "componentRules cname component =
     (if length (requires component) > 0 then
        [\<lparr>id_v = ''component-'' @ cname @ ''-requires'',
          description_v = ''Check if '' @ cname @ '' has required components'',
          check_v = ''entity has '' @ join '', '' (requires component) @ '' when using '' @ cname,
          message_v = cname @ '' requires '' @ join '', '' (requires component) @ '' component(s)'',
          severity = error\<rparr>]
      else []) @
     (if length (usedBySystems component) > 0 then
        [\<lparr>id_v = ''component-'' @ cname @ ''-system'',
          description_v = ''Check if '' @ cname @ '' has required system'',
          check_v = ''world has '' @ join '' or '' (usedBySystems component)
            @ '' registered when using '' @ cname,
          message_v = cname @ '' requires '' @ join '' or '' (usedBySystems component)
            @ '' to be registered'',
          severity = warning\<rparr>]
      else [])"

definition systemRules :: "string \<Rightarrow> SystemDefinition \<Rightarrow> ValidationRule list" where
  "systemRules sname system =
     (if length (queriesComponents system) > 0 then
        [\<lparr>id_v = ''system-'' @ sname @ ''-components'',
          description_v = ''Check if '' @ sname @ '' has entities with required components'',
          check_v = ''entities have '' @ join '', '' (queriesComponents system)
            @ '' when using '' @ sname,
          message_v = sname @ '' queries for '' @ join '', '' (queriesComponents system)
            @ '' component(s)'',
          severity = warning\<rparr>]
      else [])"

definition entityCreationRule :: ValidationRule where
  "entityCreationRule =
     \<lparr>id_v = ''entity-creation'',
      description_v = ''Check entity creation method'',
      check_v = ''use createTransformEntity() for entities that need position/rotation'',
      message_v =
        ''Use createTransformEntity() instead of createEntity() for 3D positioned entities'',
      severity = warning\<rparr>"

definition generateValidationRules :: "Components \<Rightarrow> Systems \<Rightarrow> ValidationRule list" where
  "generateValidationRules components systems =
     concat (map (\<lambda>(name, component). componentRules name component) components)
     @ concat (map (\<lambda>(name, system). systemRules name system) systems)
     @ [entityCreationRule]"

section \<open>Co-occurrence analysis and typical compositions\<close>

text \<open>
  A plain object (\<open>{}\<close>) inherits the properties of \<open>Object.prototype\<close>: a read
  \<open>obj[k]\<close> of a name that is not an own property gives the inherited value, a function
  (for \<open>__proto__\<close> the prototype object), where it gives \<open>undefined\<close> for every other
  name. An assignment \<open>obj[k] = v\<close> of a number or a string makes an own property, except
  for \<open>__proto__\<close>, where it does nothing.
\<close>

definition objectPrototypeNames :: "string list" where
  "objectPrototypeNames =
     [''constructor'', ''__defineGetter__'', ''__defineSetter__'', ''hasOwnProperty'',
      ''__lookupGetter__'', ''__lookupSetter__'', ''isPrototypeOf'', ''propertyIsEnumerable'',
      ''toString'', ''valueOf'', ''__proto__'', ''toLocaleString'']"

definition assign :: "string \<Rightarrow> 'v \<Rightarrow> (string \<times> 'v) list \<Rightarrow> (string \<times> 'v) list" where
  "assign k v obj = (if k = ''__proto__'' then obj else AList.update k v obj)"

text \<open>
  The values of the local dictionary of counts: a number, or the string that \<open>+ 1\<close> makes
  of a function, an object or such a string by appending \<open>1\<close>. \<open>increment\<close> is
  \<open>(obj[k] || 0) + 1\<close>, and \<open>divide_c\<close> is \<open>count / length\<close>, where the string converts to
  \<open>NaN\<close>.
\<close>

datatype counter = Count nat | NotNumeric

definition increment :: "(string \<times> counter) list \<Rightarrow> string \<Rightarrow> counter" where
  "increment obj k =
     (case map_of obj k of
        Some (Count n) \<Rightarrow> Count (n + 1)
      | Some NotNumeric \<Rightarrow> NotNumeric
      | None \<Rightarrow> if k \<in> set objectPrototypeNames then NotNumeric else Count 1)"

definition divide_c :: "counter \<Rightarrow> nat \<Rightarrow> number" where
  "divide_c c len = (case c of Count n \<Rightarrow> Number (of_nat n / of_nat len) | NotNumeric \<Rightarrow> NaN)"

text \<open>The comparison \<open>a < b\<close> of two numbers, false when either is \<open>NaN\<close>.\<close>

fun less_n :: "number \<Rightarrow> number \<Rightarrow> bool" where
  "less_n (Number a) (Number b) = (a < b)"
| "less_n _ _ = False"

text \<open>
  \<open>analyzeComponentCoOccurrences\<close>. The loop body for one component: the examples that use
  it, the count of every other name over those examples' \<open>componentsUsed\<close> lists
  (\<open>coOccurrences[otherComp] = (coOccurrences[otherComp] || 0) + 1\<close>), the counts divided
  by the number of those examples and stored into \<open>component.coOccurrences\<close>, and the band
  filter \<open>freq > 0.5 && freq < 1.0\<close> over the stored map. A component no example uses is
  left as it is (\<open>continue\<close>).
\<close>

definition countOthers :: "string \<Rightarrow> string list \<Rightarrow> (string \<times> counter) list \<Rightarrow> (string \<times> counter) list" where
  "countOthers cname used counts =
     fold (\<lambda>otherComp acc.
        if otherComp \<noteq> cname then assign otherComp (increment acc otherComp) acc else acc)
       used counts"

definition countCoOccurrences :: "string \<Rightarrow> ExampleCode list \<Rightarrow> (string \<times> counter) list" where
  "countCoOccurrences cname examplesWithComponent =
     fold (\<lambda>example acc. countOthers cname (componentsUsed example) acc) examplesWithComponent []"

definition storeFrequencies :: "nat \<Rightarrow> (string \<times> counter) list \<Rightarrow> (string \<times> number) list \<Rightarrow> (string \<times> number) list" where
  "storeFrequencies len counts stored =
     fold (\<lambda>(otherComp, count) acc. assign otherComp (divide_c count len) acc) counts stored"

definition analyzeComponent :: "ExampleCode list \<Rightarrow> ComponentDefinition \<Rightarrow> ComponentDefinition" where
  "analyzeComponent examples component =
     (let examplesWithComponent =
            filter (\<lambda>ex. name component \<in> set (componentsUsed ex)) examples
      in if length examplesWithComponent = 0 then component
         else
           let counts = countCoOccurrences (name component) examplesWithComponent;
               stored = storeFrequencies (length examplesWithComponent) counts
                          (coOccurrences component);
               highFrequencyPairs =
                 map fst (filter (\<lambda>(comp, freq).
                            less_n (Number (1 / 2)) freq \<and> less_n freq (Number 1)) stored)
           in component\<lparr>coOccurrences := stored, optionalWith := highFrequencyPairs\<rparr>)"

definition analyzeComponentCoOccurrences :: "Components \<Rightarrow> ExampleCode list \<Rightarrow> Components" where
  "analyzeComponentCoOccurrences components examples =
     map (\<lambda>(key, component). (key, analyzeComponent examples component)) components"

text \<open>
  \<open>extractTypicalCompositions\<close>. The \<open>Map\<close> from key to pattern is an association list in
  insertion order; \<open>sort()\<close> without a comparator orders strings by their code units, which
  is the lexicographic order on \<open>string\<close>; the final \<open>sort\<close> by \<open>b.frequency - a.frequency\<close>
  is stable, as \<open>sort_key\<close> is.
\<close>

record PatternEntry =
  components_p :: "string list"
  count_p :: nat
  category_p :: string

definition addExample :: "ExampleCode \<Rightarrow> (string \<times> PatternEntry) list \<Rightarrow> (string \<times> PatternEntry) list" where
  "addExample example patterns =
     (if length (componentsUsed example) < 2 then patterns
      else
        let sortedComps = sort (componentsUsed example);
            key = join ''|'' sortedComps
        in case map_of patterns key of
             Some pattern \<Rightarrow> AList.update key (pattern\<lparr>count_p := count_p pattern + 1\<rparr>) patterns
           | None \<Rightarrow>
               AList.update key
                 \<lparr>components_p = sortedComps, count_p = 1, category_p = category_e example\<rparr>
                 patterns)"

definition groupExamples :: "ExampleCode list \<Rightarrow> (string \<times> PatternEntry) list" where
  "groupExamples examples = fold addExample examples []"

definition isCommon :: "nat \<Rightarrow> PatternEntry \<Rightarrow> bool" where
  "isCommon totalExamples pattern \<longleftrightarrow>
     count_p pattern \<ge> 2 \<or> (of_nat (count_p pattern) / of_nat totalExamples :: rat) > 1 / 10"

definition toComponentPattern :: "nat \<Rightarrow> string \<times> PatternEntry \<Rightarrow> ComponentPattern" where
  "toComponentPattern totalExamples entry =
     (case entry of (key, pattern) \<Rightarrow>
        \<lparr>name_c = map (\<lambda>c. if c = CHR ''|'' then CHR ''+'' else c) key,
         components_c = components_p pattern,
         frequency = of_nat (count_p pattern) / of_nat totalExamples,
         category_c = category_p pattern\<rparr>)"

definition extractTypicalCompositions :: "ExampleCode list \<Rightarrow> ComponentPattern list" where
  "extractTypicalCompositions examples =
     (let patterns = groupExamples examples;
          totalExamples = (if length examples = 0 then 1 else length examples);
          commonPatterns =
            map (toComponentPattern totalExamples)
              (filter (\<lambda>(key, pattern). isCommon totalExamples pattern) patterns)
      in sort_key (\<lambda>p. - frequency p) commonPatterns)"

text \<open>
  Records as \<open>extractComponentsFromAST\<close> and \<open>parseExamples\<close> create them, with the fields
  that no inference pass reads left empty: a component with its name and \<open>requires\<close> list,
  an example with its list of imported component names.
\<close>

definition componentNamed :: "string \<Rightarrow> string list \<Rightarrow> ComponentDefinition" where
  "componentNamed cname reqs =
     \<lparr>name = cname, package = ''@iwsdk/core'', filePath = [], description = [],
      remarks = None, category = None, jsdocExamples = [], fields_c = [], sourceCode = [],
      usageExamples = [], requires = reqs, optionalWith = [], usedBySystems = [],
      coOccurrences = [], importPath = [], keywords_c = []\<rparr>"

definition exampleUsing :: "string list \<Rightarrow> ExampleCode" where
  "exampleUsing used =
     \<lparr>title = [], filePath_e = [], description_e = [], code = [], category_e = ''setup'',
      tags = [], componentsUsed = used, systemsUsed = [], initPattern = None\<rparr>"

section \<open>Auxiliary notions of the proofs\<close>

text \<open>The number counted for a key so far, \<open>0\<close> when there is none.\<close>

definition cnt :: "(string \<times> counter) list \<Rightarrow> string \<Rightarrow> nat" where
  "cnt m k = (case map_of m k of Some (Count n) \<Rightarrow> n | _ \<Rightarrow> 0)"

text \<open>A dictionary of counts that holds a number for the key, or nothing.\<close>

definition numeric_at :: "(string \<times> counter) list \<Rightarrow> string \<Rightarrow> bool" where
  "numeric_at m k \<longleftrightarrow> map_of m k \<noteq> Some NotNumeric"

text \<open>The outer counting loop of the co-occurrence analysis, from any starting map.\<close>

definition foldCounts :: "string \<Rightarrow> ExampleCode list \<Rightarrow> (string \<times> counter) list \<Rightarrow> (string \<times> counter) list" where
  "foldCounts cname exs acc =
     fold (\<lambda>example acc. countOthers cname (componentsUsed example) acc) exs acc"

text \<open>
  The key of an example in the pattern table, and the examples of at least two listed
  components that share a key, in input order.
\<close>

definition patternKey :: "ExampleCode \<Rightarrow> string" where
  "patternKey example = join ''|'' (sort (componentsUsed example))"

definition groupOf :: "string \<Rightarrow> ExampleCode list \<Rightarrow> ExampleCode list" where
  "groupOf key examples =
     filter (\<lambda>ex. 2 \<le> length (componentsUsed ex) \<and> patternKey ex = key) examples"

definition groupEntry :: "string \<Rightarrow> ExampleCode list \<Rightarrow> PatternEntry" where
  "groupEntry key examples =
     \<lparr>components_p = sort (componentsUsed (hd (groupOf key examples))),
      count_p = length (groupOf key examples),
      category_p = category_e (hd (groupOf key examples))\<rparr>"

text \<open>
  The groups in the words of the specification: the share of a group among all examples,
  the groups that are kept (at least two examples, or more than a tenth of all examples),
  and the pattern reported for a group.
\<close>

definition groupFrequency :: "string \<Rightarrow> ExampleCode list \<Rightarrow> rat" where
  "groupFrequency key examples =
     of_nat (length (groupOf key examples))
       / of_nat (if length examples = 0 then 1 else length examples)"

definition keptGroup :: "string \<Rightarrow> ExampleCode list \<Rightarrow> bool" where
  "keptGroup key examples \<longleftrightarrow>
     groupOf key examples \<noteq> []
     \<and> (2 \<le> length (groupOf key examples) \<or> 1 / 10 < groupFrequency key examples)"

definition groupPattern :: "string \<Rightarrow> ExampleCode list \<Rightarrow> ComponentPattern" where
  "groupPattern key examples =
     \<lparr>name_c = map (\<lambda>c. if c = CHR ''|'' then CHR ''+'' else c) key,
      components_c = sort (componentsUsed (hd (groupOf key examples))),
      frequency = groupFrequency key examples,
      category_c = category_e (hd (groupOf key examples))\<rparr>"

section \<open>Syntax trees of the TypeScript parser\<close>

text \<open>
  The parser is a library: its trees are data here. A node carries its source text
  (\<open>getText(sourceFile)\<close>) and the parts the script reads, under the parser's names; the
  documentation comments attached to a statement or class are its \<open>JSDocInfo\<close>: the text of
  every comment block (\<open>None\<close> where \<open>comment.comment\<close> is undefined) and the tags with
  their text (\<open>''\<close> where the tag has none). \<open>children\<close> is the order in which
  \<open>ts.forEachChild\<close> visits the parts. Tokens and the declaration list node between a
  variable statement and its declarations have no children that any visitor of the script
  matches and are left out; every other kind of node is an \<open>OtherNode\<close> with its children.
\<close>

record JSDocInfo =
  jsDocComments :: "string option list"
  jsDocTags :: "(string \<times> string) list"

datatype node =
    SourceFile string "node list"
  | VariableStatement string JSDocInfo "node list" "node list"
  | VariableDeclaration string node "node option" "node option"
  | CallExpression string node "node list" "node list"
  | ObjectLiteralExpression string "node list"
  | PropertyAssignment string node node
  | ArrayLiteralExpression string "node list"
  | ClassDeclaration string JSDocInfo "node list" "node option" "node list" "node list" "node list"
  | HeritageClause string "node list"
  | ExpressionWithTypeArguments string node "node list"
  | OtherNode string "node list"

text \<open>
  The fields are, in order: \<open>SourceFile\<close> text, statements; \<open>VariableStatement\<close> text,
  jsDoc, modifiers, \<open>declarationList.declarations\<close>; \<open>VariableDeclaration\<close> text, name,
  type, initializer; \<open>CallExpression\<close> text, expression, typeArguments, arguments;
  \<open>ObjectLiteralExpression\<close> text, properties; \<open>PropertyAssignment\<close> text, name,
  initializer; \<open>ArrayLiteralExpression\<close> text, elements; \<open>ClassDeclaration\<close> text, jsDoc,
  modifiers, name, typeParameters, heritageClauses, members; \<open>HeritageClause\<close> text, types;
  \<open>ExpressionWithTypeArguments\<close> text, expression, typeArguments.
\<close>

fun getText :: "node \<Rightarrow> string" where
  "getText (SourceFile t _) = t"
| "getText (VariableStatement t _ _ _) = t"
| "getText (VariableDeclaration t _ _ _) = t"
| "getText (CallExpression t _ _ _) = t"
| "getText (ObjectLiteralExpression t _) = t"
| "getText (PropertyAssignment t _ _) = t"
| "getText (ArrayLiteralExpression t _) = t"
| "getText (ClassDeclaration t _ _ _ _ _ _) = t"
| "getText (HeritageClause t _) = t"
| "getText (ExpressionWithTypeArguments t _ _) = t"
| "getText (OtherNode t _) = t"

fun optional :: "'a option \<Rightarrow> 'a list" where
  "optional None = []"
| "optional (Some x) = [x]"

fun children :: "node \<Rightarrow> node list" where
  "children (SourceFile _ statements) = statements"
| "children (VariableStatement _ _ modifiers declarations) = modifiers @ declarations"
| "children (VariableDeclaration _ dname dtype initializer) =
     dname # optional dtype @ optional initializer"
| "children (CallExpression _ expression typeArguments arguments) =
     expression # typeArguments @ arguments"
| "children (ObjectLiteralExpression _ props) = props"
| "children (PropertyAssignment _ pname initializer) = [pname, initializer]"
| "children (ArrayLiteralExpression _ elements) = elements"
| "children (ClassDeclaration _ _ modifiers cname typeParameters heritageClauses members) =
     modifiers @ optional cname @ typeParameters @ heritageClauses @ members"
| "children (HeritageClause _ types) = types"
| "children (ExpressionWithTypeArguments _ expression typeArguments) =
     expression # typeArguments"
| "children (OtherNode _ cs) = cs"

lemma in_set_optional: "c \<in> set (optional x) \<longleftrightarrow> x = Some c"
  by (cases x) auto

lemma size_children [termination_simp]:
  "c \<in> set (children n) \<Longrightarrow> size c < size n"
  by (cases n) (auto simp: in_set_optional less_Suc_eq_le
      dest!: size_list_estimation' [where f = size and y = "size c"])

section \<open>What the script gets from its host\<close>

text \<open>
  The file system, the parser and the regular expression engine are not code of the
  repository; the script's calls to them are the fields of \<open>Host\<close>. \<open>readFile\<close> is
  \<open>existsSync\<close> followed by \<open>readFile\<close> (\<open>None\<close> when the path does not exist; a path that
  exists is taken to be a readable file); \<open>pathJoin\<close> is \<open>path.join\<close> of two segments;
  \<open>createSourceFile\<close> takes the file name and the content; \<open>matchRequiresTag\<close> is
  \<open>content.match(/\/\*\*[\s\S]*?@requires\s+([\w,\s]+)/)\<close> and \<open>matchComponentCall\<close> is
  \<open>text.match(/(?:hasComponent|getComponent)\s*\(\s*entity\s*,\s*(\w+)/)\<close>, both giving the
  first group of the match. \<open>parseComponentSchema\<close> and \<open>generateKeywords\<close> are functions
  of the script that no property below depends on; they fill two fields of a record and
  are taken as given.
\<close>

record JSDocResult =
  description_j :: string
  remarks_j :: "string option"
  category_j :: "string option"
  examples_j :: "string list"

record Host =
  pathJoin :: "string \<Rightarrow> string \<Rightarrow> string"
  readFile :: "string \<Rightarrow> string option"
  createSourceFile :: "string \<Rightarrow> string \<Rightarrow> node"
  matchRequiresTag :: "string \<Rightarrow> string option"
  matchComponentCall :: "string \<Rightarrow> string option"
  parseComponentSchema :: "node \<Rightarrow> ComponentField list"
  generateKeywords :: "string \<Rightarrow> JSDocResult \<Rightarrow> string list"



definition isWhiteSpace :: "char \<Rightarrow> bool" where
  "isWhiteSpace c \<longleftrightarrow> (of_char c :: nat) \<in> {9, 10, 11, 12, 13, 32}"

definition trim :: "string \<Rightarrow> string" where
  "trim s = rev (dropWhile isWhiteSpace (rev (dropWhile isWhiteSpace s)))"

section \<open>Relationship extraction\<close>







section \<open>Queried components of a system class\<close>

text \<open>\<open>/^[A-Z]/.test(s)\<close>.\<close>

definition startsUpper :: "string \<Rightarrow> bool" where
  "startsUpper s \<longleftrightarrow> (case s of [] \<Rightarrow> False | c # _ \<Rightarrow> 65 \<le> (of_char c :: nat) \<and> (of_char c :: nat) \<le> 90)"

text \<open>
  \<open>extractQueriedComponents\<close>, one definition for each level of the nested loops: a
  property of a query, a property of the queries argument, a type of a heritage clause, a
  heritage clause.
\<close>

definition requiredOf :: "node \<Rightarrow> string list" where
  "requiredOf queryProp =
     (case queryProp of
        PropertyAssignment _ propName requiredValue \<Rightarrow>
          if getText propName = ''required'' then
            (case requiredValue of
               ArrayLiteralExpression _ elements \<Rightarrow>
                 filter (\<lambda>componentName. componentName \<noteq> [] \<and> startsUpper componentName)
                   (map getText elements)
             | _ \<Rightarrow> [])
          else []
      | _ \<Rightarrow> [])"

definition queryComponents :: "node \<Rightarrow> string list" where
  "queryComponents prop =
     (case prop of
        PropertyAssignment _ _ queryDef \<Rightarrow>
          (case queryDef of
             ObjectLiteralExpression _ queryProps \<Rightarrow> concat (map requiredOf queryProps)
           | _ \<Rightarrow> [])
      | _ \<Rightarrow> [])"

definition heritageTypeComponents :: "node \<Rightarrow> string list" where
  "heritageTypeComponents htype =
     (case htype of
        ExpressionWithTypeArguments _ expr _ \<Rightarrow>
          (case expr of
             CallExpression _ callee _ arguments \<Rightarrow>
               if getText callee = ''createSystem'' \<and> length arguments > 0 then
                 (case hd arguments of
                    ObjectLiteralExpression _ props \<Rightarrow> concat (map queryComponents props)
                  | _ \<Rightarrow> [])
               else []
           | _ \<Rightarrow> [])
      | _ \<Rightarrow> [])"

definition heritageClauseComponents :: "node \<Rightarrow> string list" where
  "heritageClauseComponents heritageClause =
     (case heritageClause of
        HeritageClause _ types \<Rightarrow> concat (map heritageTypeComponents types)
      | _ \<Rightarrow> [])"

definition extractQueriedComponents :: "node \<Rightarrow> string list" where
  "extractQueriedComponents classNode =
     dedupe
       (case classNode of
          ClassDeclaration _ _ _ _ _ heritageClauses _ \<Rightarrow>
            concat (map heritageClauseComponents heritageClauses)
        | _ \<Rightarrow> [])"

section \<open>Component extraction\<close>

text \<open>
  \<open>extractJSDoc\<close>: the last non-empty comment text, trimmed; the last \<open>@remarks\<close> and
  \<open>@category\<close>; every \<open>@example\<close>.
\<close>

definition extractJSDoc :: "JSDocInfo \<Rightarrow> JSDocResult" where
  "extractJSDoc doc =
     \<lparr>description_j =
        fold (\<lambda>comment d. case comment of Some t \<Rightarrow> if t \<noteq> [] then trim t else d | None \<Rightarrow> d)
          (jsDocComments doc) [],
      remarks_j =
        fold (\<lambda>(tagName, tagText) r. if tagName = ''remarks'' then Some tagText else r)
          (jsDocTags doc) None,
      category_j =
        fold (\<lambda>(tagName, tagText) r. if tagName = ''category'' then Some tagText else r)
          (jsDocTags doc) None,
      examples_j =
        map snd (filter (\<lambda>(tagName, tagText). tagName = ''example'') (jsDocTags doc))\<rparr>"

text \<open>\<open>s.replace(/['"]/g, '')\<close>.\<close>

definition stripQuotes :: "string \<Rightarrow> string" where
  "stripQuotes s = filter (\<lambda>c. c \<noteq> CHR 0x27 \<and> c \<noteq> CHR 0x22) s"

text \<open>
  The body of \<open>visit\<close> in \<open>extractComponentsFromAST\<close> at one node, inside out: the
  record built from a qualifying call, the test of a declaration (its initializer is a call
  of \<open>createComponent\<close> with at least two arguments), and the test of the node (a variable
  statement, read at \<open>declarations[0]\<close>).
\<close>

definition componentRecord :: "Host \<Rightarrow> string \<Rightarrow> string \<Rightarrow> JSDocInfo \<Rightarrow> node \<Rightarrow> node list \<Rightarrow> string \<times> ComponentDefinition" where
  "componentRecord h packageName path doc declaration arguments =
     (let componentName = stripQuotes (getText (arguments ! 0));
          schemaArg = arguments ! 1;
          jsdoc = extractJSDoc doc;
          simpleDescription =
            (if length arguments > 2 then stripQuotes (getText (arguments ! 2))
             else description_j jsdoc)
      in (componentName,
          \<lparr>name = componentName, package = packageName, filePath = path,
           description = simpleDescription, remarks = remarks_j jsdoc,
           category = category_j jsdoc, jsdocExamples = examples_j jsdoc,
           fields_c = parseComponentSchema h schemaArg,
           sourceCode = getText declaration, usageExamples = [],
           requires = [], optionalWith = [], usedBySystems = [], coOccurrences = [],
           importPath = ''import { '' @ componentName @ '' } from ''
             @ [CHR 0x27] @ packageName @ [CHR 0x27] @ '';'',
           keywords_c = generateKeywords h componentName jsdoc\<rparr>))"

definition componentOfDeclaration :: "Host \<Rightarrow> string \<Rightarrow> string \<Rightarrow> JSDocInfo \<Rightarrow> node \<Rightarrow> (string \<times> ComponentDefinition) option" where
  "componentOfDeclaration h packageName path doc declaration =
     (case declaration of
        VariableDeclaration _ _ _ (Some initializer) \<Rightarrow>
          (case initializer of
             CallExpression _ callee _ arguments \<Rightarrow>
               if getText callee = ''createComponent'' \<and> length arguments \<ge> 2
               then Some (componentRecord h packageName path doc declaration arguments)
               else None
           | _ \<Rightarrow> None)
      | _ \<Rightarrow> None)"

definition componentOf :: "Host \<Rightarrow> string \<Rightarrow> string \<Rightarrow> node \<Rightarrow> (string \<times> ComponentDefinition) option" where
  "componentOf h packageName path n =
     (case n of
        VariableStatement _ doc _ declarations \<Rightarrow>
          (case declarations of
             [] \<Rightarrow> None
           | declaration # _ \<Rightarrow> componentOfDeclaration h packageName path doc declaration)
      | _ \<Rightarrow> None)"

fun visitComponents :: "Host \<Rightarrow> string \<Rightarrow> string \<Rightarrow> node \<Rightarrow> Components \<Rightarrow> Components" where
  "visitComponents h packageName path n components =
     fold (visitComponents h packageName path) (children n)
       (case componentOf h packageName path n of
          Some (componentName, component) \<Rightarrow> AList.update componentName component components
        | None \<Rightarrow> components)"

declare visitComponents.simps [simp del]

definition extractComponentsFromAST :: "Host \<Rightarrow> node \<Rightarrow> string \<Rightarrow> string \<Rightarrow> string \<Rightarrow> Components" where
  "extractComponentsFromAST h sourceFile content packageName path =
     visitComponents h packageName path sourceFile []"











text \<open>
  In the words of the specification: \<open>x\<close> is the text of an element of the \<open>required\<close>
  array of a query of the \<open>createSystem\<close> call that a heritage clause of the class extends.
\<close>

definition requiredElement :: "node \<Rightarrow> string \<Rightarrow> bool" where
  "requiredElement classNode x \<longleftrightarrow>
     (\<exists>ct doc ms cname tps heritageClauses members ht types et callText callee targs arguments
        targs' ot props pt pname qt queryProps rt rname arrText elements element.
        classNode = ClassDeclaration ct doc ms cname tps heritageClauses members
        \<and> HeritageClause ht types \<in> set heritageClauses
        \<and> ExpressionWithTypeArguments et (CallExpression callText callee targs arguments) targs'
            \<in> set types
        \<and> getText callee = ''createSystem''
        \<and> arguments \<noteq> [] \<and> hd arguments = ObjectLiteralExpression ot props
        \<and> PropertyAssignment pt pname (ObjectLiteralExpression qt queryProps) \<in> set props
        \<and> PropertyAssignment rt rname (ArrayLiteralExpression arrText elements) \<in> set queryProps
        \<and> getText rname = ''required''
        \<and> element \<in> set elements \<and> x = getText element)"

text \<open>The class \<open>FooSystem\<close> of the specification's fifth scenario, as the parser gives it.\<close>

definition fooSystem :: node where
  "fooSystem =
     ClassDeclaration ''class FooSystem extends createSystem({ main: { required: [A, b] } }) {}''
       \<lparr>jsDocComments = [], jsDocTags = []\<rparr> []
       (Some (OtherNode ''FooSystem'' [])) []
       [HeritageClause ''extends createSystem({ main: { required: [A, b] } })''
          [ExpressionWithTypeArguments ''createSystem({ main: { required: [A, b] } })''
             (CallExpression ''createSystem({ main: { required: [A, b] } })''
                (OtherNode ''createSystem'' []) []
                [ObjectLiteralExpression ''{ main: { required: [A, b] } }''
                   [PropertyAssignment ''main: { required: [A, b] }''
                      (OtherNode ''main'' [])
                      (ObjectLiteralExpression ''{ required: [A, b] }''
                         [PropertyAssignment ''required: [A, b]''
                            (OtherNode ''required'' [])
                            (ArrayLiteralExpression ''[A, b]''
                               [OtherNode ''A'' [], OtherNode ''b'' []])])]])
             []]]
       []"





section \<open>Telemetry\<close>

text \<open>
  The values of a parameter record (\<open>Record<string, any>\<close>) are JSON-like values; the
  length of a string is its number of code units.
\<close>

datatype JSValue =
    JSString string
  | JSNumber rat
  | JSBoolean bool
  | JSNull
  | JSUndefined
  | JSArray "JSValue list"
  | JSObject "(string \<times> JSValue) list"

record TelemetryEvent =
  timestamp :: string
  tool :: string
  params :: "(string \<times> JSValue) list"

text \<open>\<open>sanitizeParams\<close>: the loop over \<open>Object.entries(params)\<close>, and its body for one value.\<close>

definition sanitizeValue :: "JSValue \<Rightarrow> JSValue" where
  "sanitizeValue v =
     (case v of
        JSString s \<Rightarrow> if length s > 500 then JSString (take 500 s @ ''... (truncated)'') else v
      | _ \<Rightarrow> v)"

definition sanitizeParams :: "(string \<times> JSValue) list \<Rightarrow> (string \<times> JSValue) list" where
  "sanitizeParams ps =
     fold (\<lambda>(key, v) sanitized. AList.update key (sanitizeValue v) sanitized) ps []"

text \<open>
  What \<open>logToolCall\<close> meets outside the script: the clock (\<open>new Date().toISOString()\<close>),
  \<open>JSON.stringify\<close> (which throws on a value it cannot serialise), and whether \<open>mkdir\<close> and
  \<open>appendFile\<close> throw in this call. The state is the telemetry directory, the content of
  the telemetry file, and what \<open>console.error\<close> has reported. A failed \<open>appendFile\<close> is
  taken to leave the file as it was.
\<close>

datatype Failure = MkdirFailed | StringifyFailed | AppendFailed

record TelemetryEnv =
  now :: string
  stringify :: "TelemetryEvent \<Rightarrow> Failure + string"
  mkdirFails :: bool
  appendFails :: bool

record TelemetryState =
  dirExists :: bool
  fileContent :: string
  reported :: "Failure list"

text \<open>
  The body of the \<open>try\<close> block: the exception it throws, if any, and the state it leaves.
\<close>

definition logBody :: "TelemetryEnv \<Rightarrow> string \<Rightarrow> (string \<times> JSValue) list \<Rightarrow> TelemetryState \<Rightarrow> Failure option \<times> TelemetryState" where
  "logBody env toolName ps st =
     (if \<not> dirExists st \<and> mkdirFails env then (Some MkdirFailed, st)
      else
        let st1 = (if \<not> dirExists st then st\<lparr>dirExists := True\<rparr> else st);
            event = \<lparr>timestamp = now env, tool = toolName, params = sanitizeParams ps\<rparr>
        in case stringify env event of
             Inl e \<Rightarrow> (Some e, st1)
           | Inr line \<Rightarrow>
               if appendFails env then (Some AppendFailed, st1)
               else (None, st1\<lparr>fileContent := fileContent st1 @ line @ [CHR 0x0A]\<rparr>))"

text \<open>
  \<open>logToolCall\<close>: the \<open>try\<close> block and its \<open>catch\<close>, which reports the exception and
  returns. The first component is the exception that reaches the caller.
\<close>

definition logToolCall :: "TelemetryEnv \<Rightarrow> string \<Rightarrow> (string \<times> JSValue) list \<Rightarrow> TelemetryState \<Rightarrow> Failure option \<times> TelemetryState" where
  "logToolCall env toolName ps st =
     (case logBody env toolName ps st of
        (Some e, st') \<Rightarrow> (None, st'\<lparr>reported := reported st' @ [e]\<rparr>)
      | (None, st') \<Rightarrow> (None, st'))"

text \<open>A host for the example below: it serialises an event to its tool name.\<close>

definition sampleEnv :: TelemetryEnv where
  "sampleEnv =
     \<lparr>now = ''2025-11-17T00:00:00.000Z'', stringify = (\<lambda>event. Inr (tool event)),
      mkdirFails = False, appendFails = False\<rparr>"

section \<open>Records as extraction creates them\<close>

text \<open>
  A record as \<open>extractComponentsFromAST\<close> creates it: stored under its own name, with the
  lists and the map that the inference passes fill still empty.
\<close>

definition fresh :: "string \<times> ComponentDefinition \<Rightarrow> bool" where
  "fresh entry \<longleftrightarrow>
     (case entry of (key, c) \<Rightarrow>
        name c = key \<and> requires c = [] \<and> optionalWith c = [] \<and> usedBySystems c = []
        \<and> coOccurrences c = [])"

section \<open>Lemmas on lists\<close>

lemma distinct_count_list_one:
  "distinct xs \<Longrightarrow> count_list xs y = (if y \<in> set xs then 1 else 0)"
  by (induction xs) auto

lemma set_fold_push_new: "set (fold push_new xs acc) = set acc \<union> set xs"
  by (induction xs arbitrary: acc) (auto simp: push_new_def)

lemma distinct_fold_push_new: "distinct acc \<Longrightarrow> distinct (fold push_new xs acc)"
  by (induction xs arbitrary: acc) (auto simp: push_new_def)

lemma set_dedupe: "set (dedupe xs) = set xs"
  by (simp add: dedupe_def set_fold_push_new)

lemma distinct_dedupe: "distinct (dedupe xs)"
  by (simp add: dedupe_def distinct_fold_push_new)

lemma dedupe_append: "dedupe (xs @ ys) = fold push_new ys (dedupe xs)"
  by (simp add: dedupe_def)



lemma dedupe_distinct: "distinct xs \<Longrightarrow> dedupe xs = xs"
proof (induction xs rule: rev_induct)
  case Nil
  then show ?case by (simp add: dedupe_def)
next
  case (snoc x xs)
  then show ?case by (simp add: dedupe_append push_new_def)
qed

section \<open>Extracted records\<close>

text \<open>
  Every record that \<open>extractComponentsFromAST\<close> returns is stored under its own name and
  has empty \<open>requires\<close>, \<open>optionalWith\<close>, \<open>usedBySystems\<close> and \<open>coOccurrences\<close>: the state
  from which the inference passes of a pipeline run start.
\<close>

lemma in_update:
  "p \<in> set (AList.update k v al) \<Longrightarrow> p = (k, v) \<or> p \<in> set al"
  by (induction al) (auto split: if_splits)

lemma componentOf_fresh:
  "componentOf h pkg path n = Some entry \<Longrightarrow> fresh entry"
  by (auto simp: componentOf_def componentOfDeclaration_def componentRecord_def fresh_def Let_def
      split: node.splits list.splits option.splits if_splits)

lemma fold_invariant:
  "(\<And>c r. c \<in> set cs \<Longrightarrow> P r \<Longrightarrow> P (f c r)) \<Longrightarrow> P r \<Longrightarrow> P (fold f cs r)"
  by (induction cs arbitrary: r) simp_all

lemma visitComponents_fresh:
  "\<forall>p \<in> set components. fresh p \<Longrightarrow>
   \<forall>p \<in> set (visitComponents h pkg path n components). fresh p"
proof (induction h pkg path n components rule: visitComponents.induct)
  case (1 h pkg path n components)
  let ?start = "case componentOf h pkg path n of
          Some (componentName, component) \<Rightarrow> AList.update componentName component components
        | None \<Rightarrow> components"
  have start: "\<forall>p \<in> set ?start. fresh p"
  proof (cases "componentOf h pkg path n")
    case None
    then show ?thesis using "1.prems" by simp
  next
    case (Some entry)
    obtain k c where e: "entry = (k, c)" by (cases entry)
    have "fresh (k, c)" using Some e componentOf_fresh by blast
    then show ?thesis using Some e "1.prems" by (auto dest: in_update)
  qed
  have "\<forall>p \<in> set (fold (visitComponents h pkg path) (children n) ?start). fresh p"
    by (rule fold_invariant[where P = "\<lambda>r. \<forall>p \<in> set r. fresh p"])
      (rule "1.IH", assumption+, rule start)
  then show ?case by (subst visitComponents.simps)
qed

lemma extracted_records_fresh:
  "(key, c) \<in> set (extractComponentsFromAST h sourceFile content pkg path) \<Longrightarrow>
   name c = key \<and> requires c = [] \<and> optionalWith c = [] \<and> usedBySystems c = []
   \<and> coOccurrences c = []"
  using visitComponents_fresh[of "[]" h pkg path sourceFile]
  by (auto simp: extractComponentsFromAST_def fresh_def)

section \<open>Co-occurrence frequencies (C1, C2)\<close>

lemma map_of_assign:
  "k \<noteq> ''__proto__'' \<Longrightarrow> map_of (assign x v obj) k = (if x = k then Some v else map_of obj k)"
  by (simp add: assign_def update_conv')

lemma distinct_assign:
  "distinct (map fst obj) \<Longrightarrow> distinct (map fst (assign x v obj))"
  by (simp add: assign_def distinct_update)

lemma not_inherited_not_proto:
  "k \<notin> set objectPrototypeNames \<Longrightarrow> k \<noteq> ''__proto__''"
  by (auto simp: objectPrototypeNames_def)

lemma increment_numeric:
  "k \<notin> set objectPrototypeNames \<Longrightarrow> numeric_at m k \<Longrightarrow> increment m k = Count (cnt m k + 1)"
  by (auto simp: increment_def numeric_at_def cnt_def split: option.splits counter.splits)

lemma countOthers_Cons:
  "countOthers cname (x # xs) counts =
     countOthers cname xs
       (if x \<noteq> cname then assign x (increment counts x) counts else counts)"
  by (simp add: countOthers_def)

lemma countOthers_Nil: "countOthers cname [] counts = counts"
  by (simp add: countOthers_def)

lemma map_of_countOthers:
  "k \<notin> set objectPrototypeNames \<Longrightarrow> numeric_at counts k \<Longrightarrow>
   map_of (countOthers cname used counts) k =
     (if k \<noteq> cname \<and> k \<in> set used then Some (Count (cnt counts k + count_list used k))
      else map_of counts k)"
proof (induction used arbitrary: counts)
  case Nil
  then show ?case by (simp add: countOthers_Nil)
next
  case (Cons x xs)
  let ?next = "if x \<noteq> cname then assign x (increment counts x) counts else counts"
  have np: "k \<noteq> ''__proto__''" using Cons.prems(1) by (rule not_inherited_not_proto)
  have m: "map_of ?next k =
      (if x \<noteq> cname \<and> x = k then Some (Count (cnt counts k + 1)) else map_of counts k)"
    using Cons.prems by (auto simp: map_of_assign[OF np] increment_numeric)
  have num: "numeric_at ?next k" using m Cons.prems(2) by (auto simp: numeric_at_def)
  have c: "cnt ?next k = (if x \<noteq> cname \<and> x = k then cnt counts k + 1 else cnt counts k)"
    using m by (auto simp: cnt_def)
  show ?case
    unfolding countOthers_Cons Cons.IH[OF Cons.prems(1) num] c m
    by auto
qed

lemma numeric_countOthers:
  "k \<notin> set objectPrototypeNames \<Longrightarrow> numeric_at counts k \<Longrightarrow>
   numeric_at (countOthers cname used counts) k"
  using map_of_countOthers[of k counts cname used] by (auto simp: numeric_at_def)

lemma cnt_countOthers:
  "k \<notin> set objectPrototypeNames \<Longrightarrow> numeric_at counts k \<Longrightarrow>
   cnt (countOthers cname used counts) k =
     cnt counts k + (if k \<noteq> cname then count_list used k else 0)"
  using map_of_countOthers[of k counts cname used] by (auto simp: cnt_def count_list_0_iff)

lemma distinct_countOthers:
  "distinct (map fst counts) \<Longrightarrow> distinct (map fst (countOthers cname used counts))"
  by (induction used arbitrary: counts)
    (simp_all add: countOthers_Nil countOthers_Cons distinct_assign)

lemma map_of_foldCounts:
  "k \<notin> set objectPrototypeNames \<Longrightarrow> numeric_at acc k \<Longrightarrow>
   map_of (foldCounts cname exs acc) k =
     (if k \<noteq> cname \<and> (\<exists>ex \<in> set exs. k \<in> set (componentsUsed ex))
      then Some (Count (cnt acc k + sum_list (map (\<lambda>ex. count_list (componentsUsed ex) k) exs)))
      else map_of acc k)"
proof (induction exs arbitrary: acc)
  case Nil
  then show ?case by (simp add: foldCounts_def)
next
  case (Cons e es)
  have step: "foldCounts cname (e # es) acc =
      foldCounts cname es (countOthers cname (componentsUsed e) acc)"
    by (simp add: foldCounts_def)
  have num: "numeric_at (countOthers cname (componentsUsed e) acc) k"
    using Cons.prems by (rule numeric_countOthers)
  show ?case
    unfolding step Cons.IH[OF Cons.prems(1) num]
    using Cons.prems
    by (auto simp: cnt_countOthers map_of_countOthers cnt_def)
qed

lemma distinct_foldCounts:
  "distinct (map fst acc) \<Longrightarrow> distinct (map fst (foldCounts cname exs acc))"
  by (induction exs arbitrary: acc) (simp_all add: foldCounts_def distinct_countOthers)

lemma map_of_countCoOccurrences:
  "k \<notin> set objectPrototypeNames \<Longrightarrow>
   map_of (countCoOccurrences cname exs) k =
     (if k \<noteq> cname \<and> (\<exists>ex \<in> set exs. k \<in> set (componentsUsed ex))
      then Some (Count (sum_list (map (\<lambda>ex. count_list (componentsUsed ex) k) exs)))
      else None)"
  using map_of_foldCounts[of k "[]" cname exs]
  by (simp add: countCoOccurrences_def foldCounts_def cnt_def numeric_at_def)

lemma distinct_countCoOccurrences: "distinct (map fst (countCoOccurrences cname exs))"
  using distinct_foldCounts[of "[]" cname exs] by (simp add: countCoOccurrences_def foldCounts_def)

lemma map_of_storeFrequencies:
  "distinct (map fst counts) \<Longrightarrow> k \<noteq> ''__proto__'' \<Longrightarrow>
   map_of (storeFrequencies len counts stored) k =
     (case map_of counts k of Some c \<Rightarrow> Some (divide_c c len) | None \<Rightarrow> map_of stored k)"
proof (induction counts arbitrary: stored)
  case Nil
  then show ?case by (simp add: storeFrequencies_def)
next
  case (Cons p ps)
  obtain a b where p: "p = (a, b)" by (cases p)
  have step: "storeFrequencies len (p # ps) stored =
      storeFrequencies len ps (assign a (divide_c b len) stored)"
    by (simp add: storeFrequencies_def p)
  have d: "distinct (map fst ps)" using Cons.prems by simp
  have na: "map_of ps a = None" using Cons.prems p by (simp add: map_of_eq_None_iff)
  note IH = Cons.IH[OF d Cons.prems(2), of "assign a (divide_c b len) stored"]
  show ?case
  proof (cases "k = a")
    case True
    then show ?thesis unfolding step IH using Cons.prems(2)
      by (simp add: p na map_of_assign)
  next
    case False
    then show ?thesis unfolding step IH using Cons.prems(2)
      by (simp add: p map_of_assign split: option.splits)
  qed
qed

lemma distinct_storeFrequencies:
  "distinct (map fst stored) \<Longrightarrow> distinct (map fst (storeFrequencies len counts stored))"
proof (induction counts arbitrary: stored)
  case Nil
  then show ?case by (simp add: storeFrequencies_def)
next
  case (Cons p ps)
  obtain a b where p: "p = (a, b)" by (cases p)
  have step: "storeFrequencies len (p # ps) stored =
      storeFrequencies len ps (assign a (divide_c b len) stored)"
    by (simp add: storeFrequencies_def p)
  show ?case unfolding step using Cons.prems by (intro Cons.IH) (simp add: distinct_assign)
qed

lemma sum_count_distinct:
  "\<forall>ex \<in> set exs. distinct (componentsUsed ex) \<Longrightarrow>
   sum_list (map (\<lambda>ex. count_list (componentsUsed ex) k) exs)
     = length (filter (\<lambda>ex. k \<in> set (componentsUsed ex)) exs)"
proof (induction exs)
  case Nil
  then show ?case by simp
next
  case (Cons e es)
  have "count_list (componentsUsed e) k = (if k \<in> set (componentsUsed e) then 1 else 0)"
    using Cons.prems by (simp add: distinct_count_list_one)
  then show ?case using Cons by simp
qed

lemma analyzeComponent_values:
  assumes "coOccurrences c = []"
    and "(k, v) \<in> set (coOccurrences (analyzeComponent examples c))"
    and "k \<notin> set objectPrototypeNames"
  shows "k \<noteq> name c \<and>
     v = Number (of_nat (sum_list (map (\<lambda>ex. count_list (componentsUsed ex) k)
                  (filter (\<lambda>ex. name c \<in> set (componentsUsed ex)) examples)))
         / of_nat (length (filter (\<lambda>ex. name c \<in> set (componentsUsed ex)) examples)))
     \<and> filter (\<lambda>ex. name c \<in> set (componentsUsed ex)) examples \<noteq> []"
proof -
  let ?with = "filter (\<lambda>ex. name c \<in> set (componentsUsed ex)) examples"
  let ?counts = "countCoOccurrences (name c) ?with"
  let ?stored = "storeFrequencies (length ?with) ?counts []"
  have np: "k \<noteq> ''__proto__''" using assms(3) by (rule not_inherited_not_proto)
  have ne: "?with \<noteq> []"
  proof
    assume "?with = []"
    then have "analyzeComponent examples c = c" by (simp add: analyzeComponent_def)
    then show False using assms by simp
  qed
  then have co: "coOccurrences (analyzeComponent examples c) = ?stored"
    using assms(1) by (simp add: analyzeComponent_def Let_def)
  have "distinct (map fst ?stored)" by (rule distinct_storeFrequencies) simp
  then have "map_of ?stored k = Some v" using assms(2) co by simp
  then have m: "(case map_of ?counts k of Some n \<Rightarrow> Some (divide_c n (length ?with))
      | None \<Rightarrow> map_of [] k) = Some v"
    by (simp only: map_of_storeFrequencies[OF distinct_countCoOccurrences np])
  obtain n where n: "map_of ?counts k = Some n" "v = divide_c n (length ?with)"
  proof (cases "map_of ?counts k")
    case None
    then show ?thesis using m by simp
  next
    case (Some n)
    then show ?thesis using m that by simp
  qed
  from n(1) have k: "k \<noteq> name c"
    "n = Count (sum_list (map (\<lambda>ex. count_list (componentsUsed ex) k) ?with))"
    by (auto simp: map_of_countCoOccurrences[OF assms(3)] split: if_splits)
  show ?thesis using k n(2) ne by (simp add: divide_c_def)
qed

lemma analyzeComponent_name: "name (analyzeComponent examples c) = name c"
  by (simp add: analyzeComponent_def Let_def)

lemma filter_both_count:
  "length (filter (\<lambda>ex. k \<in> set (componentsUsed ex))
      (filter (\<lambda>ex. n \<in> set (componentsUsed ex)) examples))
   = length (filter (\<lambda>ex. n \<in> set (componentsUsed ex) \<and> k \<in> set (componentsUsed ex)) examples)"
  by (simp add: conj_commute)

text \<open>
  C1, as the code has it. A pipeline run starts the analysis from records whose
  \<open>coOccurrences\<close> map is empty. When no example lists a component name twice in
  \<open>componentsUsed\<close>, every value that a record's \<open>coOccurrences\<close> stores under a name
  that is not a property of \<open>Object.prototype\<close> is a number in \<open>[0,1]\<close>: the number of
  examples that use both this component and the other one, divided by the number of
  examples that use this component.
\<close>

theorem coOccurrences_frequency_in_unit_interval:
  assumes "\<forall>(key, c) \<in> set components. coOccurrences c = []"
    and "\<forall>ex \<in> set examples. distinct (componentsUsed ex)"
    and "(key, c') \<in> set (analyzeComponentCoOccurrences components examples)"
    and "(k, v) \<in> set (coOccurrences c')"
    and "k \<notin> set objectPrototypeNames"
  shows "v = Number
           (of_nat (length (filter (\<lambda>ex. name c' \<in> set (componentsUsed ex)
                                      \<and> k \<in> set (componentsUsed ex)) examples))
            / of_nat (length (filter (\<lambda>ex. name c' \<in> set (componentsUsed ex)) examples)))
     \<and> (0::rat) \<le> of_nat (length (filter (\<lambda>ex. name c' \<in> set (componentsUsed ex)
                                      \<and> k \<in> set (componentsUsed ex)) examples))
            / of_nat (length (filter (\<lambda>ex. name c' \<in> set (componentsUsed ex)) examples))
     \<and> (of_nat (length (filter (\<lambda>ex. name c' \<in> set (componentsUsed ex)
                                      \<and> k \<in> set (componentsUsed ex)) examples))
            / of_nat (length (filter (\<lambda>ex. name c' \<in> set (componentsUsed ex)) examples))
          :: rat) \<le> 1"
proof -
  from assms(3) obtain c where c: "(key, c) \<in> set components" "c' = analyzeComponent examples c"
    by (auto simp: analyzeComponentCoOccurrences_def)
  have e: "coOccurrences c = []" using assms(1) c(1) by auto
  let ?with = "filter (\<lambda>ex. name c \<in> set (componentsUsed ex)) examples"
  let ?both = "filter (\<lambda>ex. name c \<in> set (componentsUsed ex) \<and> k \<in> set (componentsUsed ex)) examples"
  have d: "\<forall>ex \<in> set ?with. distinct (componentsUsed ex)" using assms(2) by simp
  from analyzeComponent_values[OF e, of k v examples] assms(4,5) c(2)
  have v: "v = Number (of_nat (sum_list (map (\<lambda>ex. count_list (componentsUsed ex) k) ?with))
         / of_nat (length ?with))" and ne: "?with \<noteq> []" by simp_all
  have s: "sum_list (map (\<lambda>ex. count_list (componentsUsed ex) k) ?with) = length ?both"
    unfolding sum_count_distinct[OF d] by (rule filter_both_count)
  have le: "length ?both \<le> length ?with"
    unfolding filter_both_count[symmetric] by (rule length_filter_le)
  have veq: "v = Number (of_nat (length ?both) / of_nat (length ?with))" using v s by simp
  have pos: "0 < length ?with" using ne by simp
  have "(of_nat (length ?both) / of_nat (length ?with) :: rat) \<le> 1"
    using le pos by (simp add: divide_le_eq_1)
  moreover have "(0::rat) \<le> of_nat (length ?both) / of_nat (length ?with)" by simp
  ultimately show ?thesis using veq by (simp add: c(2) analyzeComponent_name)
qed

text \<open>
  The third scenario of the specification: of four examples, three import \<open>PhysicsBody\<close>
  and \<open>PhysicsShape\<close> and one imports \<open>PhysicsBody\<close> alone; the stored frequency is
  \<open>3/4\<close>.
\<close>

theorem coOccurrences_frequency_witness:
  "(''PhysicsShape'', Number (3 / 4)) \<in> set (coOccurrences (analyzeComponent
       [exampleUsing [''PhysicsBody'', ''PhysicsShape''],
        exampleUsing [''PhysicsShape'', ''PhysicsBody''],
        exampleUsing [''PhysicsBody'', ''PhysicsShape''],
        exampleUsing [''PhysicsBody'']] (componentNamed ''PhysicsBody'' [])))
   \<and> (0::rat) \<le> 3 / 4 \<and> (3 / 4 :: rat) \<le> 1"
proof -
  let ?examples = "[exampleUsing [''PhysicsBody'', ''PhysicsShape''],
        exampleUsing [''PhysicsShape'', ''PhysicsBody''],
        exampleUsing [''PhysicsBody'', ''PhysicsShape''],
        exampleUsing [''PhysicsBody'']]"
  let ?components = "[(''PhysicsBody'', componentNamed ''PhysicsBody'' [])]"
  have h1: "\<forall>(key, c) \<in> set ?components. coOccurrences c = []"
    by (simp add: componentNamed_def)
  have h2: "\<forall>ex \<in> set ?examples. distinct (componentsUsed ex)"
    by (simp add: exampleUsing_def)
  have h3: "(''PhysicsBody'', analyzeComponent ?examples (componentNamed ''PhysicsBody'' []))
      \<in> set (analyzeComponentCoOccurrences ?components ?examples)"
    by (simp add: analyzeComponentCoOccurrences_def)
  have h4: "(''PhysicsShape'', Number (3 / 4))
      \<in> set (coOccurrences (analyzeComponent ?examples (componentNamed ''PhysicsBody'' [])))"
    by (simp add: analyzeComponent_def componentNamed_def exampleUsing_def
        countCoOccurrences_def countOthers_def storeFrequencies_def assign_def increment_def
        divide_c_def objectPrototypeNames_def)
  have h5: "''PhysicsShape'' \<notin> set objectPrototypeNames"
    by (simp add: objectPrototypeNames_def)
  from coOccurrences_frequency_in_unit_interval[OF h1 h2 h3 h4 h5] h4 show ?thesis
    by (simp add: analyzeComponent_name componentNamed_def exampleUsing_def)
qed

text \<open>
  C1 as stated fails where an example lists a name twice: one example with
  \<open>componentsUsed = [A, B, B]\<close> gives component \<open>A\<close> the stored value \<open>2\<close> for \<open>B\<close>.
\<close>

theorem coOccurrences_above_one:
  "(''B'', Number 2) \<in> set (coOccurrences (snd (hd (analyzeComponentCoOccurrences
       [(''A'', componentNamed ''A'' [])] [exampleUsing [''A'', ''B'', ''B'']]))))
   \<and> \<not> (2::rat) \<le> 1"
  by (simp add: analyzeComponentCoOccurrences_def analyzeComponent_def componentNamed_def
      exampleUsing_def countCoOccurrences_def countOthers_def storeFrequencies_def
      assign_def increment_def divide_c_def objectPrototypeNames_def)

text \<open>
  Both conditions of the statement above are needed. A name that the local dictionary of
  counts inherits from \<open>Object.prototype\<close> is read as a function the first time, so its
  count is a string and the stored value is \<open>NaN\<close>, although no list repeats a name:
  \<open>__defineGetter__\<close> starts with a character that is its own upper case, which is all
  that \<open>extractImports\<close> asks of a component name.
\<close>

lemma coOccurrences_not_a_number:
  "coOccurrences (snd (hd (analyzeComponentCoOccurrences
       [(''A'', componentNamed ''A'' [])] [exampleUsing [''A'', ''__defineGetter__'']])))
   = [(''__defineGetter__'', NaN)]"
  by (simp add: analyzeComponentCoOccurrences_def analyzeComponent_def componentNamed_def
      exampleUsing_def countCoOccurrences_def countOthers_def storeFrequencies_def
      assign_def increment_def divide_c_def objectPrototypeNames_def)

lemma in_band_iff:
  "less_n (Number (1 / 2)) freq \<and> less_n freq (Number 1)
     \<longleftrightarrow> (\<exists>q. freq = Number q \<and> 1 / 2 < q \<and> q < 1)"
  by (cases freq) simp_all

text \<open>
  C2. For every record of a pipeline run (the analysis starts from empty \<open>coOccurrences\<close>
  and \<open>optionalWith\<close>), \<open>optionalWith\<close> lists exactly the keys of \<open>coOccurrences\<close> whose
  value is strictly above \<open>0.5\<close> and strictly below \<open>1.0\<close>, in the order of the map, and
  no other name. Both comparisons are false of \<open>NaN\<close>, so the values in the band are
  numbers.
\<close>

theorem optionalWith_is_frequency_band:
  assumes "\<forall>(key, c) \<in> set components. coOccurrences c = [] \<and> optionalWith c = []"
    and "(key, c') \<in> set (analyzeComponentCoOccurrences components examples)"
  shows "optionalWith c' =
       map fst (filter (\<lambda>(comp, freq). less_n (Number (1 / 2)) freq \<and> less_n freq (Number 1))
                  (coOccurrences c'))
     \<and> set (optionalWith c') =
         {comp. \<exists>q. (comp, Number q) \<in> set (coOccurrences c') \<and> 1 / 2 < q \<and> q < 1}"
proof -
  from assms(2) obtain c where c: "(key, c) \<in> set components" "c' = analyzeComponent examples c"
    by (auto simp: analyzeComponentCoOccurrences_def)
  have e: "coOccurrences c = []" "optionalWith c = []" using assms(1) c(1) by auto
  have l: "optionalWith c' =
       map fst (filter (\<lambda>(comp, freq). less_n (Number (1 / 2)) freq \<and> less_n freq (Number 1))
                  (coOccurrences c'))"
    unfolding c(2) using e by (simp add: analyzeComponent_def Let_def)
  have "set (map fst (filter (\<lambda>(comp, freq). less_n (Number (1 / 2)) freq \<and> less_n freq (Number 1))
                  (coOccurrences c')))
    = {comp. \<exists>q. (comp, Number q) \<in> set (coOccurrences c') \<and> 1 / 2 < q \<and> q < 1}"
    by (force simp: in_band_iff)
  then show ?thesis using l by simp
qed

text \<open>
  In the scenario above \<open>PhysicsShape\<close>, stored with \<open>3/4\<close>, is the one optional partner
  of \<open>PhysicsBody\<close>.
\<close>

theorem optionalWith_is_frequency_band_witness:
  "optionalWith (analyzeComponent
       [exampleUsing [''PhysicsBody'', ''PhysicsShape''],
        exampleUsing [''PhysicsShape'', ''PhysicsBody''],
        exampleUsing [''PhysicsBody'', ''PhysicsShape''],
        exampleUsing [''PhysicsBody'']] (componentNamed ''PhysicsBody'' []))
   = [''PhysicsShape'']"
proof -
  let ?examples = "[exampleUsing [''PhysicsBody'', ''PhysicsShape''],
        exampleUsing [''PhysicsShape'', ''PhysicsBody''],
        exampleUsing [''PhysicsBody'', ''PhysicsShape''],
        exampleUsing [''PhysicsBody'']]"
  let ?components = "[(''PhysicsBody'', componentNamed ''PhysicsBody'' [])]"
  have h1: "\<forall>(key, c) \<in> set ?components. coOccurrences c = [] \<and> optionalWith c = []"
    by (simp add: componentNamed_def)
  have h2: "(''PhysicsBody'', analyzeComponent ?examples (componentNamed ''PhysicsBody'' []))
      \<in> set (analyzeComponentCoOccurrences ?components ?examples)"
    by (simp add: analyzeComponentCoOccurrences_def)
  have co: "coOccurrences (analyzeComponent ?examples (componentNamed ''PhysicsBody'' []))
      = [(''PhysicsShape'', Number (3 / 4))]"
    by (simp add: analyzeComponent_def componentNamed_def exampleUsing_def
        countCoOccurrences_def countOthers_def storeFrequencies_def assign_def increment_def
        divide_c_def objectPrototypeNames_def)
  from optionalWith_is_frequency_band[OF h1 h2, THEN conjunct1] show ?thesis by (simp add: co)
qed

section \<open>Relationship extraction (C3)\<close>










section \<open>Typical compositions (C4)\<close>

lemma addExample_skip:
  "length (componentsUsed e) < 2 \<Longrightarrow> addExample e acc = acc"
  by (simp add: addExample_def)

lemma map_of_addExample:
  "2 \<le> length (componentsUsed e) \<Longrightarrow>
   map_of (addExample e acc) K =
     (if K = patternKey e then
        (case map_of acc K of
           Some p \<Rightarrow> Some (p\<lparr>count_p := count_p p + 1\<rparr>)
         | None \<Rightarrow> Some \<lparr>components_p = sort (componentsUsed e), count_p = 1,
                           category_p = category_e e\<rparr>)
      else map_of acc K)"
  by (simp add: addExample_def Let_def patternKey_def update_conv' split: option.splits)

lemma distinct_addExample:
  "distinct (map fst acc) \<Longrightarrow> distinct (map fst (addExample e acc))"
  by (simp add: addExample_def Let_def distinct_update split: option.splits)

lemma groupOf_Cons:
  "groupOf K (e # es) =
     (if 2 \<le> length (componentsUsed e) \<and> patternKey e = K then e # groupOf K es
      else groupOf K es)"
  by (simp add: groupOf_def)

lemma map_of_fold_addExample:
  "map_of (fold addExample exs acc) K =
     (case map_of acc K of
        Some p \<Rightarrow> Some (p\<lparr>count_p := count_p p + length (groupOf K exs)\<rparr>)
      | None \<Rightarrow> if groupOf K exs = [] then None else Some (groupEntry K exs))"
proof (induction exs arbitrary: acc)
  case Nil
  then show ?case by (simp add: groupOf_def split: option.splits)
next
  case (Cons e es)
  show ?case
  proof (cases "2 \<le> length (componentsUsed e)")
    case False
    then have a: "addExample e acc = acc" by (simp add: addExample_skip)
    have g: "groupOf K (e # es) = groupOf K es" using False by (simp add: groupOf_Cons)
    have ge: "groupEntry K (e # es) = groupEntry K es" by (simp add: groupEntry_def g)
    have "fold addExample (e # es) acc = fold addExample es acc" by (simp add: a)
    then show ?thesis unfolding g ge using Cons.IH[of acc] by simp
  next
    case True
    note m = map_of_addExample[OF True, of acc K]
    show ?thesis
    proof (cases "K = patternKey e")
      case False
      then have g: "groupOf K (e # es) = groupOf K es" by (simp add: groupOf_Cons)
      have ge: "groupEntry K (e # es) = groupEntry K es" by (simp add: groupEntry_def g)
      have "map_of (addExample e acc) K = map_of acc K" using m False by simp
      then show ?thesis unfolding g ge using Cons.IH[of "addExample e acc"] by simp
    next
      case K: True
      then have g: "groupOf K (e # es) = e # groupOf K es" using True by (simp add: groupOf_Cons)
      show ?thesis
      proof (cases "map_of acc K")
        case None
        then have "map_of (addExample e acc) K = Some \<lparr>components_p = sort (componentsUsed e), count_p = 1,
                           category_p = category_e e\<rparr>" using m K by simp
        then show ?thesis using Cons.IH[of "addExample e acc"] None
          by (simp add: g groupEntry_def)
      next
        case (Some p)
        then have "map_of (addExample e acc) K = Some (p\<lparr>count_p := count_p p + 1\<rparr>)"
          using m K by simp
        then show ?thesis using Cons.IH[of "addExample e acc"] Some
          by (simp add: g)
      qed
    qed
  qed
qed

lemma distinct_fold_addExample:
  "distinct (map fst acc) \<Longrightarrow> distinct (map fst (fold addExample exs acc))"
  by (induction exs arbitrary: acc) (simp_all add: distinct_addExample)

lemma distinct_groupExamples: "distinct (map fst (groupExamples examples))"
  by (simp add: groupExamples_def distinct_fold_addExample)

lemma groupExamples_entry:
  "(K, p) \<in> set (groupExamples examples) \<longleftrightarrow> groupOf K examples \<noteq> [] \<and> p = groupEntry K examples"
proof -
  have "(K, p) \<in> set (groupExamples examples) \<longleftrightarrow> map_of (groupExamples examples) K = Some p"
    using distinct_groupExamples by simp
  also have "\<dots> \<longleftrightarrow> groupOf K examples \<noteq> [] \<and> p = groupEntry K examples"
    by (auto simp: groupExamples_def map_of_fold_addExample)
  finally show ?thesis .
qed

lemma kept_entries:
  "(K, p) \<in> set (filter (\<lambda>(key, pattern).
        isCommon (if length examples = 0 then 1 else length examples) pattern)
      (groupExamples examples))
   \<longleftrightarrow> keptGroup K examples \<and> p = groupEntry K examples"
  by (auto simp: groupExamples_entry keptGroup_def isCommon_def groupEntry_def groupFrequency_def)

lemma toComponentPattern_groupEntry:
  "toComponentPattern (if length examples = 0 then 1 else length examples) (K, groupEntry K examples)
     = groupPattern K examples"
  by (simp add: toComponentPattern_def groupEntry_def groupPattern_def groupFrequency_def)

lemma set_extractTypicalCompositions:
  "set (extractTypicalCompositions examples) = {groupPattern K examples | K. keptGroup K examples}"
proof -
  let ?t = "if length examples = 0 then 1 else length examples"
  let ?kept = "filter (\<lambda>(key, pattern). isCommon ?t pattern) (groupExamples examples)"
  have "set (extractTypicalCompositions examples) = toComponentPattern ?t ` set ?kept"
    by (simp add: extractTypicalCompositions_def Let_def)
  also have "\<dots> = {groupPattern K examples | K. keptGroup K examples}"
  proof (intro set_eqI iffI)
    fix p assume "p \<in> toComponentPattern ?t ` set ?kept"
    then obtain K e where "(K, e) \<in> set ?kept" "p = toComponentPattern ?t (K, e)" by auto
    then have "keptGroup K examples" "p = groupPattern K examples"
      using kept_entries[of K e examples] toComponentPattern_groupEntry[of examples K] by auto
    then show "p \<in> {groupPattern K examples | K. keptGroup K examples}" by blast
  next
    fix p assume "p \<in> {groupPattern K examples | K. keptGroup K examples}"
    then obtain K where K: "keptGroup K examples" "p = groupPattern K examples" by blast
    then have "(K, groupEntry K examples) \<in> set ?kept" using kept_entries[of K "groupEntry K examples" examples] by simp
    moreover have "p = toComponentPattern ?t (K, groupEntry K examples)"
      using K(2) toComponentPattern_groupEntry[of examples K] by simp
    ultimately show "p \<in> toComponentPattern ?t ` set ?kept" by blast
  qed
  finally show ?thesis .
qed

lemma length_extractTypicalCompositions:
  "length (extractTypicalCompositions examples) = card {K. keptGroup K examples}"
proof -
  let ?t = "if length examples = 0 then 1 else length examples"
  let ?kept = "filter (\<lambda>(key, pattern). isCommon ?t pattern) (groupExamples examples)"
  have d: "distinct (map fst ?kept)"
    using distinct_groupExamples[of examples] by (simp add: distinct_map_filter)
  have "set (map fst ?kept) = {K. keptGroup K examples}"
  proof (intro set_eqI iffI)
    fix K assume "K \<in> set (map fst ?kept)"
    then obtain e where "(K, e) \<in> set ?kept" by auto
    then show "K \<in> {K. keptGroup K examples}" using kept_entries[of K e examples] by simp
  next
    fix K assume "K \<in> {K. keptGroup K examples}"
    then have "(K, groupEntry K examples) \<in> set ?kept"
      using kept_entries[of K "groupEntry K examples" examples] by simp
    then show "K \<in> set (map fst ?kept)" by force
  qed
  then have "card {K. keptGroup K examples} = length (map fst ?kept)"
    using distinct_card[OF d] by simp
  then show ?thesis by (simp add: extractTypicalCompositions_def Let_def)
qed

lemma descending_extractTypicalCompositions:
  "sorted_wrt (\<lambda>p q. frequency q \<le> frequency p) (extractTypicalCompositions examples)"
proof -
  have "sorted (map (\<lambda>p. - frequency p) (extractTypicalCompositions examples))"
    by (simp add: extractTypicalCompositions_def Let_def)
  then show ?thesis by (simp add: sorted_map)
qed

lemma sort_two:
  assumes "distinct xs" "set xs = {a, b}" "a < b"
  shows "sort xs = [a, (b::'a::linorder)]"
proof -
  have "sorted (sort xs)" "distinct (sort xs)" "set (sort xs) = set [a, b]"
    using assms by simp_all
  moreover have "sorted [a, b]" "distinct [a, b]" using assms by simp_all
  ultimately show ?thesis by (metis sorted_distinct_set_unique)
qed

lemma two_examples_same_pair:
  assumes "distinct (componentsUsed e1)" "set (componentsUsed e1) = {''A'', ''B''}"
    and "distinct (componentsUsed e2)" "set (componentsUsed e2) = {''A'', ''B''}"
  shows "extractTypicalCompositions [e1, e2] =
     [\<lparr>name_c = ''A+B'', components_c = [''A'', ''B''], frequency = 1,
       category_c = category_e e1\<rparr>]"
proof -
  have lt: "''A'' < ''B''" by simp
  have s1: "sort (componentsUsed e1) = [''A'', ''B'']" by (rule sort_two[OF assms(1,2) lt])
  have s2: "sort (componentsUsed e2) = [''A'', ''B'']" by (rule sort_two[OF assms(3,4) lt])
  have "card (set (componentsUsed e1)) = 2" using assms(2) by simp
  then have l1: "length (componentsUsed e1) = 2" using assms(1) by (simp add: distinct_card)
  have "card (set (componentsUsed e2)) = 2" using assms(4) by simp
  then have l2: "length (componentsUsed e2) = 2" using assms(3) by (simp add: distinct_card)
  show ?thesis
    by (simp add: extractTypicalCompositions_def groupExamples_def addExample_def s1 s2 l1 l2
        isCommon_def toComponentPattern_def)
qed

text \<open>
  C4, as the code has it. \<open>extractTypicalCompositions\<close> groups the examples whose
  \<open>componentsUsed\<close> list has at least two entries by the sorted list of those entries,
  repetitions kept, joined by \<open>|\<close>. It returns one pattern for each group that occurs in
  at least two examples or in more than a tenth of all examples, and no other pattern, by
  descending frequency. Two examples whose lists hold \<open>A\<close> and \<open>B\<close> once each, in any
  order, give exactly one pattern, named \<open>A+B\<close>, of frequency \<open>1\<close>.
\<close>

theorem typical_compositions_by_sorted_list:
  "set (extractTypicalCompositions examples) = {groupPattern K examples | K. keptGroup K examples}
   \<and> length (extractTypicalCompositions examples) = card {K. keptGroup K examples}
   \<and> sorted_wrt (\<lambda>p q. frequency q \<le> frequency p) (extractTypicalCompositions examples)
   \<and> (\<forall>e1 e2.
         distinct (componentsUsed e1) \<and> set (componentsUsed e1) = {''A'', ''B''}
         \<and> distinct (componentsUsed e2) \<and> set (componentsUsed e2) = {''A'', ''B''}
         \<longrightarrow> extractTypicalCompositions [e1, e2] =
              [\<lparr>name_c = ''A+B'', components_c = [''A'', ''B''], frequency = 1,
                category_c = category_e e1\<rparr>])"
proof (intro conjI allI impI)
  show "set (extractTypicalCompositions examples)
      = {groupPattern K examples | K. keptGroup K examples}"
    by (rule set_extractTypicalCompositions)
  show "length (extractTypicalCompositions examples) = card {K. keptGroup K examples}"
    by (rule length_extractTypicalCompositions)
  show "sorted_wrt (\<lambda>p q. frequency q \<le> frequency p) (extractTypicalCompositions examples)"
    by (rule descending_extractTypicalCompositions)
next
  fix e1 e2 :: ExampleCode
  assume "distinct (componentsUsed e1) \<and> set (componentsUsed e1) = {''A'', ''B''}
         \<and> distinct (componentsUsed e2) \<and> set (componentsUsed e2) = {''A'', ''B''}"
  then show "extractTypicalCompositions [e1, e2] =
              [\<lparr>name_c = ''A+B'', components_c = [''A'', ''B''], frequency = 1,
                category_c = category_e e1\<rparr>]"
    by (intro two_examples_same_pair) simp_all
qed

theorem typical_compositions_witness:
  "extractTypicalCompositions [exampleUsing [''A'', ''B''], exampleUsing [''B'', ''A'']] =
     [\<lparr>name_c = ''A+B'', components_c = [''A'', ''B''], frequency = 1, category_c = ''setup''\<rparr>]"
proof -
  have h: "distinct (componentsUsed (exampleUsing [''A'', ''B'']))
      \<and> set (componentsUsed (exampleUsing [''A'', ''B''])) = {''A'', ''B''}
      \<and> distinct (componentsUsed (exampleUsing [''B'', ''A'']))
      \<and> set (componentsUsed (exampleUsing [''B'', ''A''])) = {''A'', ''B''}"
    by (auto simp: exampleUsing_def)
  from typical_compositions_by_sorted_list[THEN conjunct2, THEN conjunct2, THEN conjunct2,
      rule_format, OF h]
  show ?thesis by (simp add: exampleUsing_def)
qed

text \<open>
  C4 as stated fails where a name is listed twice: two examples that both import exactly
  the set \<open>{A, B}\<close>, one of them listing \<open>A\<close> twice, fall into two groups of frequency
  \<open>1/2\<close> instead of one group \<open>A+B\<close> of frequency \<open>1\<close>.
\<close>

theorem typical_compositions_not_deduplicated:
  "set (componentsUsed (exampleUsing [''A'', ''B''])) = {''A'', ''B''}
   \<and> set (componentsUsed (exampleUsing [''A'', ''B'', ''A''])) = {''A'', ''B''}
   \<and> extractTypicalCompositions [exampleUsing [''A'', ''B''], exampleUsing [''A'', ''B'', ''A'']] =
     [\<lparr>name_c = ''A+B'', components_c = [''A'', ''B''], frequency = 1 / 2,
       category_c = ''setup''\<rparr>,
      \<lparr>name_c = ''A+A+B'', components_c = [''A'', ''A'', ''B''], frequency = 1 / 2,
       category_c = ''setup''\<rparr>]"
proof -
  have "set [''A'', ''B'', ''A''] = {''A'', ''B''}" by auto
  then show ?thesis
    by (simp add: extractTypicalCompositions_def groupExamples_def addExample_def
        exampleUsing_def isCommon_def toComponentPattern_def)
qed

section \<open>Ordering constraints (C5)\<close>

lemma own_constraints_count:
  "length (filter (\<lambda>k. before k = X \<and> after k = Y)
      (map (\<lambda>required. \<lparr>before = n, after = required,
          reason = n @ '' requires '' @ required @ '' to be added first''\<rparr>) xs))
     = (if n = X then count_list xs Y else 0)"
  by (induction xs) auto

lemma constraints_count:
  "distinct (map fst components) \<Longrightarrow> map_of components X = Some c \<Longrightarrow>
   length (filter (\<lambda>k. before k = X \<and> after k = Y) (generateOrderingConstraints components))
     = count_list (requires c) Y"
proof (induction components)
  case Nil
  then show ?case by simp
next
  case (Cons p ps)
  obtain n d where p: "p = (n, d)" by (cases p)
  have split: "generateOrderingConstraints (p # ps) =
      map (\<lambda>required. \<lparr>before = n, after = required,
          reason = n @ '' requires '' @ required @ '' to be added first''\<rparr>) (requires d)
      @ generateOrderingConstraints ps"
    by (simp add: generateOrderingConstraints_def p)
  have none: "n \<noteq> X \<Longrightarrow> map_of ps X = Some c" using Cons.prems p by simp
  have rest0: "n = X \<Longrightarrow> filter (\<lambda>k. before k = X \<and> after k = Y) (generateOrderingConstraints ps) = []"
  proof -
    assume "n = X"
    then have "X \<notin> fst ` set ps" using Cons.prems p by auto
    then show ?thesis
      by (force simp: generateOrderingConstraints_def filter_empty_conv)
  qed
  show ?case
  proof (cases "n = X")
    case True
    then have "d = c" using Cons.prems p by simp
    then show ?thesis using True rest0
      by (simp only: split filter_append length_append own_constraints_count) simp
  next
    case False
    then have "length (filter (\<lambda>k. before k = X \<and> after k = Y) (generateOrderingConstraints ps))
        = count_list (requires c) Y"
      using Cons.IH none Cons.prems by simp
    then show ?thesis using False
      by (simp only: split filter_append length_append own_constraints_count) simp
  qed
qed

lemma constraints_sound:
  "distinct (map fst components) \<Longrightarrow> k \<in> set (generateOrderingConstraints components) \<Longrightarrow>
   \<exists>c. map_of components (before k) = Some c \<and> after k \<in> set (requires c)"
  by (auto simp: generateOrderingConstraints_def)

text \<open>
  C5. Over a component map (a dictionary: its keys are pairwise different), every
  constraint \<open>{before, after}\<close> of \<open>generateOrderingConstraints\<close> has \<open>after\<close> in
  \<open>components[before].requires\<close>, and the constraints with \<open>before = X\<close> and
  \<open>after = Y\<close> are as many as the entries \<open>Y\<close> of \<open>X.requires\<close>: one constraint for each
  entry of each \<open>requires\<close> list. For a record that keeps the invariant of ComponentRecord
  that \<open>requires\<close> has no duplicates, as relationship extraction leaves it, there is
  exactly one constraint for every \<open>Y\<close> in \<open>X.requires\<close>.
\<close>

theorem ordering_constraints_one_to_one:
  assumes "distinct (map fst components)"
  shows "(\<forall>k \<in> set (generateOrderingConstraints components).
            \<exists>c. map_of components (before k) = Some c \<and> after k \<in> set (requires c))
       \<and> (\<forall>X c Y. map_of components X = Some c \<longrightarrow>
            length (filter (\<lambda>k. before k = X \<and> after k = Y)
              (generateOrderingConstraints components)) = count_list (requires c) Y)
       \<and> (\<forall>X c Y. map_of components X = Some c \<and> distinct (requires c)
                    \<and> Y \<in> set (requires c) \<longrightarrow>
            length (filter (\<lambda>k. before k = X \<and> after k = Y)
              (generateOrderingConstraints components)) = 1)"
proof (intro conjI ballI allI impI)
  fix k assume "k \<in> set (generateOrderingConstraints components)"
  then show "\<exists>c. map_of components (before k) = Some c \<and> after k \<in> set (requires c)"
    using assms by (rule constraints_sound[rotated])
next
  fix X c Y assume "map_of components X = Some c"
  then show "length (filter (\<lambda>k. before k = X \<and> after k = Y)
              (generateOrderingConstraints components)) = count_list (requires c) Y"
    by (rule constraints_count[OF assms])
next
  fix X c Y
  assume a: "map_of components X = Some c \<and> distinct (requires c) \<and> Y \<in> set (requires c)"
  then have "count_list (requires c) Y = 1" by (simp add: distinct_count_list_one)
  then show "length (filter (\<lambda>k. before k = X \<and> after k = Y)
              (generateOrderingConstraints components)) = 1"
    using constraints_count[OF assms, of X c Y] a by simp
qed

theorem ordering_constraints_one_to_one_witness:
  "distinct (map fst [(''PhysicsBody'', componentNamed ''PhysicsBody'' [''PhysicsShape'']),
                      (''PhysicsShape'', componentNamed ''PhysicsShape'' [])])
   \<and> length (filter (\<lambda>k. before k = ''PhysicsBody'' \<and> after k = ''PhysicsShape'')
        (generateOrderingConstraints
           [(''PhysicsBody'', componentNamed ''PhysicsBody'' [''PhysicsShape'']),
            (''PhysicsShape'', componentNamed ''PhysicsShape'' [])])) = 1"
proof -
  let ?components = "[(''PhysicsBody'', componentNamed ''PhysicsBody'' [''PhysicsShape'']),
                      (''PhysicsShape'', componentNamed ''PhysicsShape'' [])]"
  have h1: "distinct (map fst ?components)" by simp
  have h2: "map_of ?components ''PhysicsBody''
        = Some (componentNamed ''PhysicsBody'' [''PhysicsShape''])
      \<and> distinct (requires (componentNamed ''PhysicsBody'' [''PhysicsShape'']))
      \<and> ''PhysicsShape'' \<in> set (requires (componentNamed ''PhysicsBody'' [''PhysicsShape'']))"
    by (simp add: componentNamed_def)
  from ordering_constraints_one_to_one[OF h1, THEN conjunct2, THEN conjunct2, rule_format, OF h2]
    h1
  show ?thesis by simp
qed

section \<open>Validation rules (C6)\<close>

lemma componentRules_errors:
  "filter (\<lambda>r. severity r = error) (componentRules n c) =
     (if requires c \<noteq> [] then [hd (componentRules n c)] else [])"
  by (simp add: componentRules_def)

lemma componentRules_error_id:
  "requires c \<noteq> [] \<Longrightarrow> id_v (hd (componentRules n c)) = ''component-'' @ n @ ''-requires''"
  by (simp add: componentRules_def)

lemma systemRules_errors:
  "filter (\<lambda>r. severity r = error) (systemRules n s) = []"
  by (simp add: systemRules_def)

lemma error_rule_ids_components:
  "map id_v (filter (\<lambda>r. severity r = error)
      (concat (map (\<lambda>(n, c). componentRules n c) components)))
   = map (\<lambda>(n, c). ''component-'' @ n @ ''-requires'')
       (filter (\<lambda>(n, c). requires c \<noteq> []) components)"
proof (induction components)
  case Nil
  then show ?case by simp
next
  case (Cons p ps)
  obtain n c where p: "p = (n, c)" by (cases p)
  show ?case using Cons.IH
    by (simp add: p componentRules_errors componentRules_error_id del: append.simps)
qed

lemma error_rule_ids_systems:
  "filter (\<lambda>r. severity r = error) (concat (map (\<lambda>(n, s). systemRules n s) systems)) = []"
  by (induction systems) (auto simp: systemRules_errors)

lemma error_rule_ids:
  "map id_v (filter (\<lambda>r. severity r = error) (generateValidationRules components systems))
   = map (\<lambda>(n, c). ''component-'' @ n @ ''-requires'')
       (filter (\<lambda>(n, c). requires c \<noteq> []) components)"
  unfolding generateValidationRules_def filter_append map_append
  by (simp add: error_rule_ids_components error_rule_ids_systems entityCreationRule_def)

text \<open>
  C6. Every rule of \<open>generateValidationRules\<close> has severity \<open>error\<close> or \<open>warning\<close>; the
  rules of severity \<open>error\<close> are, in order, one rule \<open>component-<name>-requires\<close> for each
  component whose \<open>requires\<close> is not empty, so the id of every \<open>error\<close> rule names such a
  component.
\<close>

theorem validation_rules_severity:
  "(\<forall>r \<in> set (generateValidationRules components systems).
       severity r = error \<or> severity r = warning)
   \<and> map id_v (filter (\<lambda>r. severity r = error) (generateValidationRules components systems))
       = map (\<lambda>(n, c). ''component-'' @ n @ ''-requires'')
           (filter (\<lambda>(n, c). requires c \<noteq> []) components)
   \<and> (\<forall>r \<in> set (generateValidationRules components systems). severity r = error \<longrightarrow>
         (\<exists>n c. (n, c) \<in> set components \<and> requires c \<noteq> []
            \<and> id_v r = ''component-'' @ n @ ''-requires''))"
proof (intro conjI ballI impI)
  fix r show "severity r = error \<or> severity r = warning" by (cases "severity r") auto
next
  show "map id_v (filter (\<lambda>r. severity r = error) (generateValidationRules components systems))
       = map (\<lambda>(n, c). ''component-'' @ n @ ''-requires'')
           (filter (\<lambda>(n, c). requires c \<noteq> []) components)"
    by (rule error_rule_ids)
next
  fix r assume "r \<in> set (generateValidationRules components systems)" "severity r = error"
  then have "id_v r \<in> set (map id_v (filter (\<lambda>r. severity r = error)
      (generateValidationRules components systems)))" by simp
  then have "id_v r \<in> set (map (\<lambda>(n, c). ''component-'' @ n @ ''-requires'')
           (filter (\<lambda>(n, c). requires c \<noteq> []) components))"
    by (simp only: error_rule_ids)
  then show "\<exists>n c. (n, c) \<in> set components \<and> requires c \<noteq> []
            \<and> id_v r = ''component-'' @ n @ ''-requires''"
    by auto
qed

theorem validation_rules_severity_witness:
  "map id_v (filter (\<lambda>r. severity r = error)
      (generateValidationRules
         [(''PhysicsBody'', componentNamed ''PhysicsBody'' [''PhysicsShape'']),
          (''PhysicsShape'', componentNamed ''PhysicsShape'' [])] []))
   = [''component-PhysicsBody-requires'']"
  using validation_rules_severity[of
      "[(''PhysicsBody'', componentNamed ''PhysicsBody'' [''PhysicsShape'']),
        (''PhysicsShape'', componentNamed ''PhysicsShape'' [])]" "[]"]
  by (simp add: componentNamed_def)

section \<open>Queried components (C7)\<close>

text \<open>
  The simproc that turns \<open>set\<close> of a list comprehension into a set comprehension does not
  apply to case distinctions over \<open>node\<close>; it is switched off for the proofs below.
\<close>

declare TrueI [simproc del: list_to_set_comprehension]

lemma startsUpper_nonempty: "startsUpper x \<Longrightarrow> x \<noteq> []"
  by (auto simp: startsUpper_def)

lemma startsUpper_Nil [simp]: "\<not> startsUpper []"
  by (simp add: startsUpper_def)

lemma in_requiredOf:
  "x \<in> set (requiredOf queryProp) \<longleftrightarrow>
     startsUpper x \<and> (\<exists>rt rname arrText elements element.
        queryProp = PropertyAssignment rt rname (ArrayLiteralExpression arrText elements)
        \<and> getText rname = ''required'' \<and> element \<in> set elements \<and> x = getText element)"
  by (cases queryProp)
    (auto simp: requiredOf_def startsUpper_nonempty split: node.splits)

lemma in_queryComponents:
  "x \<in> set (queryComponents qprop) \<longleftrightarrow>
     (\<exists>pt pname qt queryProps queryProp.
        qprop = PropertyAssignment pt pname (ObjectLiteralExpression qt queryProps)
        \<and> queryProp \<in> set queryProps \<and> x \<in> set (requiredOf queryProp))"
  by (cases qprop)
    (auto simp: queryComponents_def split: node.splits)

lemma in_heritageTypeComponents:
  "x \<in> set (heritageTypeComponents htype) \<longleftrightarrow>
     (\<exists>et callText callee targs arguments targs' ot props qprop.
        htype = ExpressionWithTypeArguments et (CallExpression callText callee targs arguments) targs'
        \<and> getText callee = ''createSystem''
        \<and> arguments \<noteq> [] \<and> hd arguments = ObjectLiteralExpression ot props
        \<and> qprop \<in> set props \<and> x \<in> set (queryComponents qprop))"
  by (cases htype)
    (auto simp: heritageTypeComponents_def split: node.splits)

lemma in_heritageClauseComponents:
  "x \<in> set (heritageClauseComponents hc) \<longleftrightarrow>
     (\<exists>ht types htype. hc = HeritageClause ht types
        \<and> htype \<in> set types \<and> x \<in> set (heritageTypeComponents htype))"
  by (cases hc) (auto simp: heritageClauseComponents_def)

lemma in_extractQueriedComponents:
  "x \<in> set (extractQueriedComponents classNode) \<longleftrightarrow>
     (\<exists>ct doc ms cname tps heritageClauses members hc.
        classNode = ClassDeclaration ct doc ms cname tps heritageClauses members
        \<and> hc \<in> set heritageClauses \<and> x \<in> set (heritageClauseComponents hc))"
  by (cases classNode) (auto simp: extractQueriedComponents_def set_dedupe)

lemma extractQueriedComponents_iff:
  "x \<in> set (extractQueriedComponents classNode) \<longleftrightarrow> requiredElement classNode x \<and> startsUpper x"
proof
  assume "x \<in> set (extractQueriedComponents classNode)"
  then obtain ct doc ms cname tps heritageClauses members hc where
    1: "classNode = ClassDeclaration ct doc ms cname tps heritageClauses members"
      "hc \<in> set heritageClauses" "x \<in> set (heritageClauseComponents hc)"
    unfolding in_extractQueriedComponents by blast
  from 1(3) obtain ht types htype where
    2: "hc = HeritageClause ht types" "htype \<in> set types"
      "x \<in> set (heritageTypeComponents htype)"
    unfolding in_heritageClauseComponents by blast
  from 2(3) obtain et callText callee targs arguments targs' ot props qprop where
    3: "htype = ExpressionWithTypeArguments et (CallExpression callText callee targs arguments) targs'"
      "getText callee = ''createSystem''" "arguments \<noteq> []"
      "hd arguments = ObjectLiteralExpression ot props"
      "qprop \<in> set props" "x \<in> set (queryComponents qprop)"
    unfolding in_heritageTypeComponents by blast
  from 3(6) obtain pt pname qt queryProps queryProp where
    4: "qprop = PropertyAssignment pt pname (ObjectLiteralExpression qt queryProps)"
      "queryProp \<in> set queryProps" "x \<in> set (requiredOf queryProp)"
    unfolding in_queryComponents by blast
  from 4(3) obtain rt rname arrText elements element where
    5: "startsUpper x"
      "queryProp = PropertyAssignment rt rname (ArrayLiteralExpression arrText elements)"
      "getText rname = ''required''" "element \<in> set elements" "x = getText element"
    unfolding in_requiredOf by blast
  have "requiredElement classNode x"
    unfolding requiredElement_def
    apply (intro exI conjI)
              apply (rule 1(1))
             apply (rule 1(2)[unfolded 2(1)])
            apply (rule 2(2)[unfolded 3(1)])
           apply (rule 3(2))
          apply (rule 3(3))
         apply (rule 3(4))
        apply (rule 3(5)[unfolded 4(1)])
       apply (rule 4(2)[unfolded 5(2)])
      apply (rule 5(3))
     apply (rule 5(4))
    apply (rule 5(5))
    done
  then show "requiredElement classNode x \<and> startsUpper x" using 5(1) by simp
next
  assume a: "requiredElement classNode x \<and> startsUpper x"
  then obtain ct doc ms cname tps heritageClauses members ht types et callText callee targs
      arguments targs' ot props pt pname qt queryProps rt rname arrText elements element where
    r: "classNode = ClassDeclaration ct doc ms cname tps heritageClauses members"
      "HeritageClause ht types \<in> set heritageClauses"
      "ExpressionWithTypeArguments et (CallExpression callText callee targs arguments) targs'
            \<in> set types"
      "getText callee = ''createSystem''"
      "arguments \<noteq> []" "hd arguments = ObjectLiteralExpression ot props"
      "PropertyAssignment pt pname (ObjectLiteralExpression qt queryProps) \<in> set props"
      "PropertyAssignment rt rname (ArrayLiteralExpression arrText elements) \<in> set queryProps"
      "getText rname = ''required''"
      "element \<in> set elements" "x = getText element"
    unfolding requiredElement_def by (elim conjE exE)
  have 5: "x \<in> set (requiredOf (PropertyAssignment rt rname (ArrayLiteralExpression arrText elements)))"
    unfolding in_requiredOf using a r(9,10,11) by blast
  have 4: "x \<in> set (queryComponents (PropertyAssignment pt pname (ObjectLiteralExpression qt queryProps)))"
    unfolding in_queryComponents using 5 r(8) by blast
  have 3: "x \<in> set (heritageTypeComponents
      (ExpressionWithTypeArguments et (CallExpression callText callee targs arguments) targs'))"
    unfolding in_heritageTypeComponents using 4 r(4,5,6,7) by blast
  have 2: "x \<in> set (heritageClauseComponents (HeritageClause ht types))"
    unfolding in_heritageClauseComponents using 3 r(3) by blast
  show "x \<in> set (extractQueriedComponents classNode)"
    unfolding in_extractQueriedComponents using 2 r(1,2) by blast
qed

lemma fooSystem_queries: "extractQueriedComponents fooSystem = [''A'']"
  by (simp add: extractQueriedComponents_def heritageClauseComponents_def
      heritageTypeComponents_def queryComponents_def requiredOf_def fooSystem_def
      startsUpper_def dedupe_def push_new_def)

text \<open>
  C7. For every class, \<open>extractQueriedComponents\<close> collects exactly those elements of
  \<open>required\<close> arrays whose text starts with an upper-case letter \<open>A\<close> to \<open>Z\<close>, each
  once; the arrays are those of the queries of a \<open>createSystem\<close> call with an object
  literal as first argument in a heritage clause of the class. The class \<open>FooSystem\<close>
  that extends \<open>createSystem({ main: { required: [A, b] } })\<close> records \<open>A\<close> and not
  \<open>b\<close>.
\<close>

theorem queried_components_capitalized:
  "set (extractQueriedComponents classNode)
     = {x. requiredElement classNode x \<and> startsUpper x}
   \<and> distinct (extractQueriedComponents classNode)
   \<and> extractQueriedComponents fooSystem = [''A'']"
  using extractQueriedComponents_iff[of _ classNode] fooSystem_queries
  by (auto simp: extractQueriedComponents_def distinct_dedupe)

theorem queried_components_capitalized_witness:
  "''A'' \<in> set (extractQueriedComponents fooSystem)
   \<and> ''b'' \<notin> set (extractQueriedComponents fooSystem) \<and> \<not> startsUpper ''b''"
proof -
  have "\<not> startsUpper ''b''" by (simp add: startsUpper_def)
  moreover have "startsUpper ''A''" by (simp add: startsUpper_def)
  moreover have "requiredElement fooSystem ''A''"
    using queried_components_capitalized[of fooSystem] by auto
  ultimately show ?thesis using queried_components_capitalized[of fooSystem] by auto
qed

section \<open>Telemetry (C9)\<close>

lemma sanitize_fold:
  "distinct (map fst ps) \<Longrightarrow> fst ` set acc \<inter> fst ` set ps = {} \<Longrightarrow>
   fold (\<lambda>(key, v) sanitized. AList.update key (sanitizeValue v) sanitized) ps acc
     = acc @ map (\<lambda>(key, v). (key, sanitizeValue v)) ps"
proof (induction ps arbitrary: acc)
  case Nil
  then show ?case by simp
next
  case (Cons p ps)
  obtain k v where p: "p = (k, v)" by (cases p)
  have notin: "k \<notin> fst ` set acc" using Cons.prems(2) p by auto
  have upd: "AList.update k (sanitizeValue v) acc = acc @ [(k, sanitizeValue v)]"
    using notin by (induction acc) auto
  have d: "distinct (map fst ps)" using Cons.prems(1) by simp
  have disj: "fst ` set (acc @ [(k, sanitizeValue v)]) \<inter> fst ` set ps = {}"
    using Cons.prems p by auto
  show ?case
    using Cons.IH[OF d disj] by (simp add: p upd)
qed

lemma sanitizeParams_map:
  "distinct (map fst ps) \<Longrightarrow> sanitizeParams ps = map (\<lambda>(key, v). (key, sanitizeValue v)) ps"
  using sanitize_fold[of ps "[]"] by (simp add: sanitizeParams_def)

lemma logToolCall_never_throws: "fst (logToolCall env toolName ps st) = None"
  by (simp add: logToolCall_def split: prod.splits option.splits)

lemma logToolCall_success:
  assumes "dirExists st \<or> \<not> mkdirFails env"
    and "stringify env \<lparr>timestamp = now env, tool = toolName, params = sanitizeParams ps\<rparr> = Inr line"
    and "\<not> appendFails env"
  shows "fileContent (snd (logToolCall env toolName ps st)) = fileContent st @ line @ [CHR 0x0A]"
    and "reported (snd (logToolCall env toolName ps st)) = reported st"
  using assms by (auto simp: logToolCall_def logBody_def Let_def)

lemma one_line: "CHR 0x0A \<notin> set line \<Longrightarrow> count_list (line @ [CHR 0x0A]) (CHR 0x0A) = 1"
  by (simp add: count_list_0_iff[THEN iffD2])

text \<open>
  C9. For every tool name and parameter record, no exception of \<open>logToolCall\<close> reaches
  the caller, whatever \<open>mkdir\<close>, \<open>JSON.stringify\<close> and \<open>appendFile\<close> do. When none of
  them fails, the call appends to the telemetry file exactly the serialised event followed
  by a line feed, and reports nothing; the event holds the time stamp, the tool name and
  the sanitised parameters, and the appended text is one line when the serialisation
  holds no line feed (as \<open>JSON.stringify\<close> without indentation gives it). The sanitised
  parameters have the keys of the parameters, in order, and each value as it was, except
  that a string of more than 500 code units is cut to its first 500 followed by
  \<open>... (truncated)\<close>; strings inside arrays and objects are values of those, not of the
  record, and stay.
\<close>

theorem logToolCall_swallows_failures:
  "fst (logToolCall env toolName ps st) = None
   \<and> ((dirExists st \<or> \<not> mkdirFails env)
        \<and> stringify env \<lparr>timestamp = now env, tool = toolName, params = sanitizeParams ps\<rparr>
            = Inr line
        \<and> \<not> appendFails env
        \<longrightarrow> fileContent (snd (logToolCall env toolName ps st))
              = fileContent st @ line @ [CHR 0x0A]
            \<and> reported (snd (logToolCall env toolName ps st)) = reported st
            \<and> (CHR 0x0A \<notin> set line \<longrightarrow> count_list (line @ [CHR 0x0A]) (CHR 0x0A) = 1))
   \<and> (distinct (map fst ps)
        \<longrightarrow> sanitizeParams ps = map (\<lambda>(key, v). (key, sanitizeValue v)) ps)
   \<and> (\<forall>s. sanitizeValue (JSString s)
          = (if length s > 500 then JSString (take 500 s @ ''... (truncated)'') else JSString s))
   \<and> (\<forall>v. (\<forall>s. v \<noteq> JSString s) \<longrightarrow> sanitizeValue v = v)"
proof (intro conjI impI allI)
  show "fst (logToolCall env toolName ps st) = None" by (rule logToolCall_never_throws)
next
  assume a: "(dirExists st \<or> \<not> mkdirFails env)
        \<and> stringify env \<lparr>timestamp = now env, tool = toolName, params = sanitizeParams ps\<rparr>
            = Inr line
        \<and> \<not> appendFails env"
  then show "fileContent (snd (logToolCall env toolName ps st))
      = fileContent st @ line @ [CHR 0x0A]"
    by (intro logToolCall_success) simp_all
  from a show "reported (snd (logToolCall env toolName ps st)) = reported st"
    by (intro logToolCall_success[where line = line]) simp_all
next
  assume "CHR 0x0A \<notin> set line"
  then show "count_list (line @ [CHR 0x0A]) (CHR 0x0A) = 1" by (rule one_line)
next
  assume "distinct (map fst ps)"
  then show "sanitizeParams ps = map (\<lambda>(key, v). (key, sanitizeValue v)) ps"
    by (rule sanitizeParams_map)
next
  fix s show "sanitizeValue (JSString s)
          = (if length s > 500 then JSString (take 500 s @ ''... (truncated)'') else JSString s)"
    by (simp add: sanitizeValue_def)
next
  fix v assume "\<forall>s. v \<noteq> JSString s"
  then show "sanitizeValue v = v" by (cases v) (simp_all add: sanitizeValue_def)
qed

theorem logToolCall_swallows_failures_witness:
  "fileContent (snd (logToolCall sampleEnv ''get_component''
       [(''code'', JSString (replicate 501 (CHR ''x''))), (''name'', JSString ''Foo'')]
       \<lparr>dirExists = False, fileContent = [], reported = []\<rparr>))
     = ''get_component'' @ [CHR 0x0A]
   \<and> sanitizeParams
       [(''code'', JSString (replicate 501 (CHR ''x''))), (''name'', JSString ''Foo'')]
     = [(''code'', JSString (replicate 500 (CHR ''x'') @ ''... (truncated)'')),
        (''name'', JSString ''Foo'')]"
proof -
  let ?ps = "[(''code'', JSString (replicate 501 (CHR ''x''))), (''name'', JSString ''Foo'')]"
  let ?st = "\<lparr>dirExists = False, fileContent = [], reported = []\<rparr>"
  have h1: "(dirExists ?st \<or> \<not> mkdirFails sampleEnv)
      \<and> stringify sampleEnv
            \<lparr>timestamp = now sampleEnv, tool = ''get_component'', params = sanitizeParams ?ps\<rparr>
          = Inr ''get_component''
      \<and> \<not> appendFails sampleEnv"
    by (simp add: sampleEnv_def)
  have h2: "distinct (map fst ?ps)" by simp
  note t = logToolCall_swallows_failures[of sampleEnv "''get_component''" ?ps ?st "''get_component''"]
  from t[THEN conjunct2, THEN conjunct1, rule_format, OF h1, THEN conjunct1]
    t[THEN conjunct2, THEN conjunct2, THEN conjunct1, rule_format, OF h2]
  show ?thesis by (simp add: sanitizeValue_def)
qed

section \<open>First declarator only (C10)\<close>














end
